theory Spec2Isabelle
  imports Main
begin

section \<open>JavaScript values and the object store\<close>

text \<open>
  The style facade \<^verbatim>\<open>Cesium3DTileStyle\<close> handles JavaScript values: primitives, references
  to mutable objects, and instances of the two expression classes. Objects live in a store
  (a list indexed by address) because the constructor deep-clones the caller's document and
  the caller may go on mutating the original. Numbers are kept abstract (type \<open>'n\<close>), as are
  the instances of \<^verbatim>\<open>Expression\<close> and \<^verbatim>\<open>ConditionsExpression\<close> (type \<open>'e\<close>), whose classes
  live in other modules.
\<close>

type_synonym addr = nat

datatype ('n, 'e) val =
    Undefined
  | Null
  | Bool bool
  | Num 'n
  | Str string
  | Ref addr
  | Function nat
  | EMPTY_OBJECT
  | ExpressionObj 'e
  | ConditionsExpressionObj 'e

text \<open>
  The kind of an object of the store is its prototype: \<^verbatim>\<open>Object.prototype\<close>,
  \<^verbatim>\<open>Array.prototype\<close>, or an instance of an expression class. The last arises in this module
  in one way only: \<^verbatim>\<open>setup\<close> assigns an \<^verbatim>\<open>Expression\<close> to the key \<^verbatim>\<open>__proto__\<close> of its local
  object \<^verbatim>\<open>meta\<close>, which sets the prototype of that object and adds no property.
\<close>

datatype 'e kind = PlainObject | ArrayObject | Inheriting 'e

text \<open>An object of the store: its kind and its own enumerable properties, in enumeration
  order. An own property may have any name, \<^verbatim>\<open>__proto__\<close> and \<^verbatim>\<open>hasOwnProperty\<close> included,
  as in an object that \<^verbatim>\<open>JSON.parse\<close> built.\<close>

datatype ('n, 'e) hobj = HObj "'e kind" "(string \<times> ('n, 'e) val) list"

type_synonym ('n, 'e) heap = "('n, 'e) hobj list"

fun props :: "('n, 'e) hobj \<Rightarrow> (string \<times> ('n, 'e) val) list" where
  "props (HObj k ps) = ps"

fun kindOf :: "('n, 'e) hobj \<Rightarrow> 'e kind" where
  "kindOf (HObj k ps) = k"

datatype error =
    DeveloperError string
  | RuntimeError string
  | RangeError string
  | TypeError string
  | RequestError string

definition notLoaded :: error where
  "notLoaded = DeveloperError
     ''The style is not loaded.  Use Cesium3DTileStyle.readyPromise or wait for Cesium3DTileStyle.ready to be true.''"

text \<open>\<^verbatim>\<open>defined(value)\<close>: neither \<^verbatim>\<open>undefined\<close> nor \<^verbatim>\<open>null\<close>.\<close>

fun defined :: "('n, 'e) val \<Rightarrow> bool" where
  "defined Undefined = False"
| "defined Null = False"
| "defined v = True"

text \<open>\<^verbatim>\<open>defaultValue(a, b)\<close>: \<^verbatim>\<open>a\<close> unless it is \<^verbatim>\<open>undefined\<close> or \<^verbatim>\<open>null\<close>.\<close>

definition defaultValue :: "('n, 'e) val \<Rightarrow> ('n, 'e) val \<Rightarrow> ('n, 'e) val" where
  "defaultValue a b = (if defined a then a else b)"

fun typeof :: "('n, 'e) val \<Rightarrow> string" where
  "typeof Undefined = ''undefined''"
| "typeof Null = ''object''"
| "typeof (Bool b) = ''boolean''"
| "typeof (Num n) = ''number''"
| "typeof (Str s) = ''string''"
| "typeof (Ref a) = ''object''"
| "typeof (Function f) = ''function''"
| "typeof EMPTY_OBJECT = ''object''"
| "typeof (ExpressionObj e) = ''object''"
| "typeof (ConditionsExpressionObj e) = ''object''"

text \<open>
  Property read \<^verbatim>\<open>v.name\<close> for the names this module reads (\<^verbatim>\<open>defines\<close>, \<^verbatim>\<open>conditions\<close>,
  \<^verbatim>\<open>meta\<close> and the style property names). Only objects of the store carry such properties;
  the frozen \<^verbatim>\<open>EMPTY_OBJECT\<close>, primitives and expression instances have none of them. The
  module never reads a property of \<^verbatim>\<open>undefined\<close> or \<^verbatim>\<open>null\<close>: every read is behind
  \<^verbatim>\<open>defaultValue\<close> or \<^verbatim>\<open>defined\<close>.
\<close>

fun lookupProp :: "(string \<times> ('n, 'e) val) list \<Rightarrow> string \<Rightarrow> ('n, 'e) val" where
  "lookupProp [] name = Undefined"
| "lookupProp ((k, v) # ps) name = (if k = name then v else lookupProp ps name)"

text \<open>The object a value denotes, if it denotes one whose properties this module can
  see: an object of the store, or the frozen empty object.\<close>

fun objectAt :: "('n, 'e) heap \<Rightarrow> ('n, 'e) val \<Rightarrow> ('n, 'e) hobj option" where
  "objectAt h (Ref a) = (if a < length h then Some (h ! a) else None)"
| "objectAt h EMPTY_OBJECT = Some (HObj PlainObject [])"
| "objectAt h v = None"

definition member :: "('n, 'e) heap \<Rightarrow> ('n, 'e) val \<Rightarrow> string \<Rightarrow> ('n, 'e) val" where
  "member h v name =
     (case objectAt h v of Some obj \<Rightarrow> lookupProp (props obj) name | None \<Rightarrow> Undefined)"

text \<open>Assignment \<^verbatim>\<open>obj[name] = v\<close> on a property list: overwrite in place, or append.\<close>

fun putProp ::
  "string \<Rightarrow> ('n, 'e) val \<Rightarrow> (string \<times> ('n, 'e) val) list \<Rightarrow> (string \<times> ('n, 'e) val) list" where
  "putProp name v [] = [(name, v)]"
| "putProp name v ((k, x) # ps) =
     (if k = name then (k, v) # ps else (k, x) # putProp name v ps)"

text \<open>Decimal numerals, the property names of a string's characters.\<close>

fun decimal :: "nat \<Rightarrow> string" where
  "decimal n =
     (if n < 10 then [''0123456789'' ! n]
      else decimal (n div 10) @ [''0123456789'' ! (n mod 10)])"

declare decimal.simps [simp del]

fun indexed :: "nat \<Rightarrow> string \<Rightarrow> (string \<times> ('n, 'e) val) list" where
  "indexed i [] = []"
| "indexed i (c # cs) = (decimal i, Str [c]) # indexed (Suc i) cs"

text \<open>
  The own enumerable properties of a value, each with its value, in the order in which
  \<^verbatim>\<open>for (var property in v)\<close> visits them: the properties of an object of the store, the
  characters of a string, none for the other primitives.
\<close>

fun ownEnumerable :: "('n, 'e) heap \<Rightarrow> ('n, 'e) val \<Rightarrow> (string \<times> ('n, 'e) val) list" where
  "ownEnumerable h (Str s) = indexed 0 s"
| "ownEnumerable h v = (case objectAt h v of Some obj \<Rightarrow> props obj | None \<Rightarrow> [])"

text \<open>Instances of the expression classes, and the values whose properties the store does
  not describe: an instance, a function, or an object whose prototype is an instance.\<close>

fun isInstance :: "('n, 'e) val \<Rightarrow> bool" where
  "isInstance (ExpressionObj e) = True"
| "isInstance (ConditionsExpressionObj e) = True"
| "isInstance v = False"

definition hostObject :: "('n, 'e) heap \<Rightarrow> ('n, 'e) val \<Rightarrow> bool" where
  "hostObject h v =
     (isInstance v \<or> typeof v = ''function'' \<or>
      (case objectAt h v of
         None \<Rightarrow> False
       | Some obj \<Rightarrow> (case kindOf obj of Inheriting e \<Rightarrow> True | _ \<Rightarrow> False)))"

section \<open>Collaborators of the style facade\<close>

text \<open>
  The classes \<^verbatim>\<open>Expression\<close> and \<^verbatim>\<open>ConditionsExpression\<close>, their \<^verbatim>\<open>getShaderFunction\<close>
  methods and the conversion \<^verbatim>\<open>String(number)\<close> are not part of this module; they are
  parameters of the model. A constructor may throw (a malformed expression); a call of
  \<^verbatim>\<open>getShaderFunction\<close> may throw and may update the caller's shader state (type \<open>'ss\<close>).
  \<open>stackDepth\<close> is the depth of recursion the host allows before it raises a range error.
  Three more parameters stand for code that the loop over \<^verbatim>\<open>meta\<close> in \<^verbatim>\<open>setup\<close> can reach:
  \<^item> \<open>callFunction E h f x name\<close> is the call \<^verbatim>\<open>x.hasOwnProperty(name)\<close> when the document gives
    \<open>x\<close> an own property \<^verbatim>\<open>hasOwnProperty\<close> that is the function \<open>f\<close>: the error it throws,
    or its result as a condition;
  \<^item> \<open>hostForIn E h x\<close> lists what the loop \<^verbatim>\<open>for (property in x)\<close> visits when \<open>x\<close> is
    an instance of an expression class, a function, or an object whose prototype is an
    instance: each property with \<^verbatim>\<open>x[property]\<close> and the outcome of the guard
    \<^verbatim>\<open>x.hasOwnProperty(property)\<close>;
  \<^item> \<open>assignInherited E e name\<close> is what the assignment \<^verbatim>\<open>meta[name] = ...\<close> does once the
    prototype of \<^verbatim>\<open>meta\<close> is the instance \<open>e\<close> and \<^verbatim>\<open>meta\<close> has no own property \<open>name\<close>:
    it throws (a property of the prototype chain that has only a getter, in strict
    mode), adds the own property (\<open>True\<close>) or adds nothing (\<open>False\<close>).
\<close>

record ('n, 'e, 'ss) env =
  numberToString :: "'n \<Rightarrow> string"
  newExpression :: "('n, 'e) heap \<Rightarrow> ('n, 'e) val \<Rightarrow> ('n, 'e) val \<Rightarrow> error + 'e"
  newConditionsExpression :: "('n, 'e) heap \<Rightarrow> ('n, 'e) val \<Rightarrow> ('n, 'e) val \<Rightarrow> error + 'e"
  getShaderFunction :: "('n, 'e) heap \<Rightarrow> ('n, 'e) val \<Rightarrow> string \<Rightarrow> string \<Rightarrow> 'ss \<Rightarrow> string
                          \<Rightarrow> (error + ('n, 'e) val) \<times> 'ss"
  stackDepth :: nat
  callFunction :: "('n, 'e) heap \<Rightarrow> nat \<Rightarrow> ('n, 'e) val \<Rightarrow> string \<Rightarrow> error + bool"
  hostForIn :: "('n, 'e) heap \<Rightarrow> ('n, 'e) val
                      \<Rightarrow> (string \<times> ('n, 'e) val \<times> (error + bool)) list"
  assignInherited :: "'e \<Rightarrow> string \<Rightarrow> error + bool"

text \<open>\<^verbatim>\<open>String(value)\<close>, which \<^verbatim>\<open>getExpression\<close> applies to booleans and numbers only.\<close>

fun String_of :: "('n, 'e, 'ss) env \<Rightarrow> ('n, 'e) val \<Rightarrow> string" where
  "String_of E (Bool b) = (if b then ''true'' else ''false'')"
| "String_of E (Num n) = numberToString E n"
| "String_of E (Str s) = s"
| "String_of E v = []"

section \<open>The style object\<close>

datatype styleProperty =
    Show | Color | PointSize | PointColor | PointOutlineColor | PointOutlineWidth
  | LabelColor | LabelOutlineColor | LabelOutlineWidth | Font | LabelStyle | LabelText
  | BackgroundColor | BackgroundPadding | BackgroundEnabled | ScaleByDistance
  | TranslucencyByDistance | DistanceDisplayCondition | HeightOffset | AnchorLineEnabled
  | AnchorLineColor | Image | DisableDepthTestDistance | Origin | LabelOrigin | Meta

fun propertyName :: "styleProperty \<Rightarrow> string" where
  "propertyName Show = ''show''"
| "propertyName Color = ''color''"
| "propertyName PointSize = ''pointSize''"
| "propertyName PointColor = ''pointColor''"
| "propertyName PointOutlineColor = ''pointOutlineColor''"
| "propertyName PointOutlineWidth = ''pointOutlineWidth''"
| "propertyName LabelColor = ''labelColor''"
| "propertyName LabelOutlineColor = ''labelOutlineColor''"
| "propertyName LabelOutlineWidth = ''labelOutlineWidth''"
| "propertyName Font = ''font''"
| "propertyName LabelStyle = ''labelStyle''"
| "propertyName LabelText = ''labelText''"
| "propertyName BackgroundColor = ''backgroundColor''"
| "propertyName BackgroundPadding = ''backgroundPadding''"
| "propertyName BackgroundEnabled = ''backgroundEnabled''"
| "propertyName ScaleByDistance = ''scaleByDistance''"
| "propertyName TranslucencyByDistance = ''translucencyByDistance''"
| "propertyName DistanceDisplayCondition = ''distanceDisplayCondition''"
| "propertyName HeightOffset = ''heightOffset''"
| "propertyName AnchorLineEnabled = ''anchorLineEnabled''"
| "propertyName AnchorLineColor = ''anchorLineColor''"
| "propertyName Image = ''image''"
| "propertyName DisableDepthTestDistance = ''disableDepthTestDistance''"
| "propertyName Origin = ''origin''"
| "propertyName LabelOrigin = ''labelOrigin''"
| "propertyName Meta = ''meta''"

text \<open>The state of \<^verbatim>\<open>_readyPromise\<close>: the promise of the document load chained with
  \<^verbatim>\<open>setup\<close>.\<close>

datatype promise = Pending | Fulfilled | Rejected error

text \<open>
  The fields of a \<^verbatim>\<open>Cesium3DTileStyle\<close>. The field \<open>u_x\<close> is the source's \<^verbatim>\<open>_x\<close>; the
  twenty-six per-property fields \<^verbatim>\<open>_show\<close>, \<^verbatim>\<open>_color\<close>, ..., \<^verbatim>\<open>_meta\<close> are gathered in
  \<open>u_prop\<close>, indexed by the property.
\<close>

record ('n, 'e) Cesium3DTileStyle =
  u_style :: "('n, 'e) val"
  u_ready :: bool
  u_prop :: "styleProperty \<Rightarrow> ('n, 'e) val"
  u_colorShaderFunction :: "('n, 'e) val"
  u_showShaderFunction :: "('n, 'e) val"
  u_pointSizeShaderFunction :: "('n, 'e) val"
  u_colorShaderFunctionReady :: bool
  u_showShaderFunctionReady :: bool
  u_pointSizeShaderFunctionReady :: bool
  u_readyPromise :: promise

text \<open>\<^verbatim>\<open>getExpression(tileStyle, value)\<close>: the coercion every setter but \<^verbatim>\<open>meta\<close>'s
  applies.\<close>

definition getExpression ::
  "('n, 'e, 'ss) env \<Rightarrow> ('n, 'e) heap \<Rightarrow> ('n, 'e) Cesium3DTileStyle \<Rightarrow> ('n, 'e) val
     \<Rightarrow> error + ('n, 'e) val" where
  "getExpression E h tileStyle v =
     (let defines = member h (defaultValue (u_style tileStyle) EMPTY_OBJECT) ''defines'' in
      if \<not> defined v then Inr Undefined
      else if typeof v = ''boolean'' \<or> typeof v = ''number'' then
        (case newExpression E h (Str (String_of E v)) Undefined of
           Inl err \<Rightarrow> Inl err
         | Inr e \<Rightarrow> Inr (ExpressionObj e))
      else if typeof v = ''string'' then
        (case newExpression E h v defines of
           Inl err \<Rightarrow> Inl err
         | Inr e \<Rightarrow> Inr (ExpressionObj e))
      else if defined (member h v ''conditions'') then
        (case newConditionsExpression E h v defines of
           Inl err \<Rightarrow> Inl err
         | Inr e \<Rightarrow> Inr (ConditionsExpressionObj e))
      else Inr v)"

text \<open>The getters of \<^verbatim>\<open>style\<close>, \<^verbatim>\<open>ready\<close>, \<^verbatim>\<open>readyPromise\<close> and of the stylable
  properties.\<close>

definition get_style :: "('n, 'e) Cesium3DTileStyle \<Rightarrow> error + ('n, 'e) val" where
  "get_style this = (if \<not> u_ready this then Inl notLoaded else Inr (u_style this))"

definition get_ready :: "('n, 'e) Cesium3DTileStyle \<Rightarrow> bool" where
  "get_ready this = u_ready this"

definition get_readyPromise :: "('n, 'e) Cesium3DTileStyle \<Rightarrow> promise" where
  "get_readyPromise this = u_readyPromise this"

definition get_property ::
  "('n, 'e) Cesium3DTileStyle \<Rightarrow> styleProperty \<Rightarrow> error + ('n, 'e) val" where
  "get_property this p = (if \<not> u_ready this then Inl notLoaded else Inr (u_prop this p))"

text \<open>
  The setters. Those of \<^verbatim>\<open>show\<close>, \<^verbatim>\<open>color\<close> and \<^verbatim>\<open>pointSize\<close> also clear the ready flag of
  their shader function; the setter of \<^verbatim>\<open>meta\<close> stores the value as it is. A setter that
  throws (the expression constructor threw) leaves the object as it was.
\<close>

fun invalidate ::
  "styleProperty \<Rightarrow> ('n, 'e) Cesium3DTileStyle \<Rightarrow> ('n, 'e) Cesium3DTileStyle" where
  "invalidate Show this = this\<lparr>u_showShaderFunctionReady := False\<rparr>"
| "invalidate Color this = this\<lparr>u_colorShaderFunctionReady := False\<rparr>"
| "invalidate PointSize this = this\<lparr>u_pointSizeShaderFunctionReady := False\<rparr>"
| "invalidate p this = this"

definition set_property ::
  "('n, 'e, 'ss) env \<Rightarrow> ('n, 'e) heap \<Rightarrow> styleProperty \<Rightarrow> ('n, 'e) val
     \<Rightarrow> ('n, 'e) Cesium3DTileStyle \<Rightarrow> error + ('n, 'e) Cesium3DTileStyle" where
  "set_property E h p v this =
     (if p = Meta then Inr (this\<lparr>u_prop := (u_prop this)(Meta := v)\<rparr>)
      else
        (case getExpression E h this v of
           Inl err \<Rightarrow> Inl err
         | Inr x \<Rightarrow> Inr (invalidate p (this\<lparr>u_prop := (u_prop this)(p := x)\<rparr>))))"

text \<open>
  The three memoised shader-function accessors. Each returns its result, the updated style
  object and the updated shader state. The ready flag is set before the property is read
  through its getter, so it stays set when the getter or the compilation throws.
\<close>

definition getColorShaderFunction ::
  "('n, 'e, 'ss) env \<Rightarrow> ('n, 'e) heap \<Rightarrow> string \<Rightarrow> string \<Rightarrow> 'ss \<Rightarrow> ('n, 'e) Cesium3DTileStyle
     \<Rightarrow> (error + ('n, 'e) val) \<times> ('n, 'e) Cesium3DTileStyle \<times> 'ss" where
  "getColorShaderFunction E h functionName attributePrefix shaderState this =
     (if u_colorShaderFunctionReady this then (Inr (u_colorShaderFunction this), this, shaderState)
      else
        (let this1 = this\<lparr>u_colorShaderFunctionReady := True\<rparr> in
         case get_property this1 Color of
           Inl err \<Rightarrow> (Inl err, this1, shaderState)
         | Inr c \<Rightarrow>
             if defined c then
               (case getShaderFunction E h c functionName attributePrefix shaderState ''vec4'' of
                  (Inl err, ss) \<Rightarrow> (Inl err, this1, ss)
                | (Inr f, ss) \<Rightarrow> (Inr f, this1\<lparr>u_colorShaderFunction := f\<rparr>, ss))
             else (Inr Undefined, this1\<lparr>u_colorShaderFunction := Undefined\<rparr>, shaderState)))"

definition getShowShaderFunction ::
  "('n, 'e, 'ss) env \<Rightarrow> ('n, 'e) heap \<Rightarrow> string \<Rightarrow> string \<Rightarrow> 'ss \<Rightarrow> ('n, 'e) Cesium3DTileStyle
     \<Rightarrow> (error + ('n, 'e) val) \<times> ('n, 'e) Cesium3DTileStyle \<times> 'ss" where
  "getShowShaderFunction E h functionName attributePrefix shaderState this =
     (if u_showShaderFunctionReady this then (Inr (u_showShaderFunction this), this, shaderState)
      else
        (let this1 = this\<lparr>u_showShaderFunctionReady := True\<rparr> in
         case get_property this1 Show of
           Inl err \<Rightarrow> (Inl err, this1, shaderState)
         | Inr c \<Rightarrow>
             if defined c then
               (case getShaderFunction E h c functionName attributePrefix shaderState ''bool'' of
                  (Inl err, ss) \<Rightarrow> (Inl err, this1, ss)
                | (Inr f, ss) \<Rightarrow> (Inr f, this1\<lparr>u_showShaderFunction := f\<rparr>, ss))
             else (Inr Undefined, this1\<lparr>u_showShaderFunction := Undefined\<rparr>, shaderState)))"

definition getPointSizeShaderFunction ::
  "('n, 'e, 'ss) env \<Rightarrow> ('n, 'e) heap \<Rightarrow> string \<Rightarrow> string \<Rightarrow> 'ss \<Rightarrow> ('n, 'e) Cesium3DTileStyle
     \<Rightarrow> (error + ('n, 'e) val) \<times> ('n, 'e) Cesium3DTileStyle \<times> 'ss" where
  "getPointSizeShaderFunction E h functionName attributePrefix shaderState this =
     (if u_pointSizeShaderFunctionReady this
      then (Inr (u_pointSizeShaderFunction this), this, shaderState)
      else
        (let this1 = this\<lparr>u_pointSizeShaderFunctionReady := True\<rparr> in
         case get_property this1 PointSize of
           Inl err \<Rightarrow> (Inl err, this1, shaderState)
         | Inr c \<Rightarrow>
             if defined c then
               (case getShaderFunction E h c functionName attributePrefix shaderState ''float'' of
                  (Inl err, ss) \<Rightarrow> (Inl err, this1, ss)
                | (Inr f, ss) \<Rightarrow> (Inr f, this1\<lparr>u_pointSizeShaderFunction := f\<rparr>, ss))
             else (Inr Undefined, this1\<lparr>u_pointSizeShaderFunction := Undefined\<rparr>, shaderState)))"


section \<open>Loading the style document\<close>

text \<open>
  Modelled from the spec: \<^verbatim>\<open>clone(value, deep)\<close> of \<^verbatim>\<open>Core/clone\<close> is not part of this
  module. The spec has the document "held verbatim (deep-cloned)": an object or array is
  copied into a new object of the same kind whose properties are the deep clones of the
  original's, in the same order; any other value is returned as it is. The recursion
  descends one level per nested object; past the host's stack depth it raises a range
  error, which is what a cyclic document runs into.
\<close>

fun cloneProps ::
  "(('n, 'e) heap \<Rightarrow> ('n, 'e) val \<Rightarrow> (error + ('n, 'e) val) \<times> ('n, 'e) heap)
     \<Rightarrow> ('n, 'e) heap \<Rightarrow> (string \<times> ('n, 'e) val) list
     \<Rightarrow> (error + (string \<times> ('n, 'e) val) list) \<times> ('n, 'e) heap" where
  "cloneProps c h [] = (Inr [], h)"
| "cloneProps c h ((k, v) # ps) =
     (case c h v of
        (Inl err, h1) \<Rightarrow> (Inl err, h1)
      | (Inr v', h1) \<Rightarrow>
          (case cloneProps c h1 ps of
             (Inl err, h2) \<Rightarrow> (Inl err, h2)
           | (Inr ps', h2) \<Rightarrow> (Inr ((k, v') # ps'), h2)))"

primrec clone ::
  "nat \<Rightarrow> ('n, 'e) heap \<Rightarrow> ('n, 'e) val \<Rightarrow> (error + ('n, 'e) val) \<times> ('n, 'e) heap" where
  "clone 0 h v =
     (case objectAt h v of
        None \<Rightarrow> (Inr v, h)
      | Some obj \<Rightarrow> (Inl (RangeError ''Maximum call stack size exceeded''), h))"
| "clone (Suc d) h v =
     (case objectAt h v of
        None \<Rightarrow> (Inr v, h)
      | Some obj \<Rightarrow>
          (case cloneProps (clone d) h (props obj) of
             (Inl err, h1) \<Rightarrow> (Inl err, h1)
           | (Inr ps, h1) \<Rightarrow> (Inr (Ref (length h1)), h1 @ [HObj (kindOf obj) ps])))"

text \<open>The order in which \<^verbatim>\<open>setup\<close> assigns the document's properties through the
  setters.\<close>

definition setupOrder :: "styleProperty list" where
  "setupOrder =
     [Show, Color, PointSize, PointColor, PointOutlineColor, PointOutlineWidth, LabelColor,
      LabelOutlineColor, LabelOutlineWidth, LabelStyle, Font, LabelText, BackgroundColor,
      BackgroundPadding, BackgroundEnabled, ScaleByDistance, TranslucencyByDistance,
      DistanceDisplayCondition, HeightOffset, AnchorLineEnabled, AnchorLineColor, Image,
      DisableDepthTestDistance, Origin, LabelOrigin]"

text \<open>The assignments \<^verbatim>\<open>that.p = styleJson.p\<close>, one after the other; the first setter that
  throws ends \<^verbatim>\<open>setup\<close>, and the assignments already made stay.\<close>

fun assignAll ::
  "('n, 'e, 'ss) env \<Rightarrow> ('n, 'e) heap \<Rightarrow> ('n, 'e) val \<Rightarrow> styleProperty list
     \<Rightarrow> ('n, 'e) Cesium3DTileStyle \<Rightarrow> (error + unit) \<times> ('n, 'e) Cesium3DTileStyle" where
  "assignAll E h styleJson [] that = (Inr (), that)"
| "assignAll E h styleJson (p # ps) that =
     (case set_property E h p (member h styleJson (propertyName p)) that of
        Inl err \<Rightarrow> (Inl err, that)
      | Inr that1 \<Rightarrow> assignAll E h styleJson ps that1)"

text \<open>
  The guard \<^verbatim>\<open>metaJson.hasOwnProperty(property)\<close> for a property that the enumeration of
  \<open>x\<close> has just yielded, \<open>x\<close> being described by the store. The method is looked up on
  \<open>x\<close>. Without an own property of that name it is the built-in test, which answers true
  for the own property asked about. An own property \<^verbatim>\<open>hasOwnProperty\<close> shadows the
  built-in: a function is called, and any other value is not callable, so the call throws
  a type error.
\<close>

definition guard ::
  "('n, 'e, 'ss) env \<Rightarrow> ('n, 'e) heap \<Rightarrow> ('n, 'e) val \<Rightarrow> string \<Rightarrow> error + bool" where
  "guard E h x name =
     (case map_of (ownEnumerable h x) ''hasOwnProperty'' of
        None \<Rightarrow> Inr True
      | Some m \<Rightarrow>
          (case m of
             Function f \<Rightarrow> callFunction E h f x name
           | _ \<Rightarrow> Inl (TypeError ''metaJson.hasOwnProperty is not a function'')))"

text \<open>What the loop \<^verbatim>\<open>for (var property in metaJson)\<close> visits: each property with
  \<^verbatim>\<open>metaJson[property]\<close> and the outcome of its guard.\<close>

definition guardedForIn ::
  "('n, 'e, 'ss) env \<Rightarrow> ('n, 'e) heap \<Rightarrow> ('n, 'e) val
     \<Rightarrow> (string \<times> ('n, 'e) val \<times> (error + bool)) list" where
  "guardedForIn E h x =
     (if hostObject h x then hostForIn E h x
      else map (\<lambda>(name, v). (name, v, guard E h x name)) (ownEnumerable h x))"

text \<open>
  The assignment \<^verbatim>\<open>meta[property] = new Expression(...)\<close> on the local object \<^verbatim>\<open>meta\<close>. An
  own property is overwritten. The name \<^verbatim>\<open>__proto__\<close> reaches the accessor of
  \<^verbatim>\<open>Object.prototype\<close>: the instance becomes the prototype of \<^verbatim>\<open>meta\<close> and no property is
  added. Any other name is added as an own property, unless the prototype is already an
  instance, whose class then decides.
\<close>

fun assignMeta ::
  "('n, 'e, 'ss) env \<Rightarrow> string \<Rightarrow> 'e \<Rightarrow> ('n, 'e) hobj \<Rightarrow> error + ('n, 'e) hobj" where
  "assignMeta E name e (HObj k ps) =
     (if map_of ps name \<noteq> None then Inr (HObj k (putProp name (ExpressionObj e) ps))
      else if name = ''__proto__'' then Inr (HObj (Inheriting e) ps)
      else
        (case k of
           Inheriting e0 \<Rightarrow>
             (case assignInherited E e0 name of
                Inl err \<Rightarrow> Inl err
              | Inr added \<Rightarrow>
                  Inr (HObj k (if added then putProp name (ExpressionObj e) ps else ps)))
         | _ \<Rightarrow> Inr (HObj k (putProp name (ExpressionObj e) ps))))"

text \<open>The loop over the document's \<^verbatim>\<open>meta\<close>: each visited property that passes the guard
  becomes an \<^verbatim>\<open>Expression\<close> built with the document's \<^verbatim>\<open>defines\<close> and is assigned to the local
  object \<^verbatim>\<open>meta\<close>. The guard, the constructor and the assignment can each throw.\<close>

fun wrapMeta ::
  "('n, 'e, 'ss) env \<Rightarrow> ('n, 'e) heap \<Rightarrow> ('n, 'e) val
     \<Rightarrow> (string \<times> ('n, 'e) val \<times> (error + bool)) list
     \<Rightarrow> ('n, 'e) hobj \<Rightarrow> error + ('n, 'e) hobj" where
  "wrapMeta E h defines [] meta = Inr meta"
| "wrapMeta E h defines ((property, v, g) # rest) meta =
     (case g of
        Inl err \<Rightarrow> Inl err
      | Inr own \<Rightarrow>
          if \<not> own then wrapMeta E h defines rest meta
          else
            (case newExpression E h v defines of
               Inl err \<Rightarrow> Inl err
             | Inr e \<Rightarrow>
                 (case assignMeta E property e meta of
                    Inl err \<Rightarrow> Inl err
                  | Inr meta1 \<Rightarrow> wrapMeta E h defines rest meta1)))"

text \<open>
  \<^verbatim>\<open>setup(that, styleJson)\<close>, here \<open>setupStyle\<close>. It returns whether it threw, the store and the style object.
  The local object \<^verbatim>\<open>meta\<close> enters the store when it is assigned to \<^verbatim>\<open>that._meta\<close>; until
  then nothing else can reach it.
\<close>

definition setupStyle ::
  "('n, 'e, 'ss) env \<Rightarrow> ('n, 'e) heap \<Rightarrow> ('n, 'e) Cesium3DTileStyle \<Rightarrow> ('n, 'e) val
     \<Rightarrow> (error + unit) \<times> ('n, 'e) heap \<times> ('n, 'e) Cesium3DTileStyle" where
  "setupStyle E h that styleJson0 =
     (case clone (stackDepth E) h styleJson0 of
        (Inl err, h1) \<Rightarrow> (Inl err, h1, that)
      | (Inr c, h1) \<Rightarrow>
          (let that1 = that\<lparr>u_style := c\<rparr>;
               styleJson = defaultValue styleJson0 EMPTY_OBJECT
           in case assignAll E h1 styleJson setupOrder that1 of
                (Inl err, that2) \<Rightarrow> (Inl err, h1, that2)
              | (Inr u, that2) \<Rightarrow>
                  (case (if defined (member h1 styleJson ''meta'')
                         then wrapMeta E h1 (member h1 styleJson ''defines'')
                                (guardedForIn E h1
                                   (defaultValue (member h1 styleJson ''meta'') EMPTY_OBJECT))
                                (HObj PlainObject [])
                         else Inr (HObj PlainObject [])) of
                     Inl err \<Rightarrow> (Inl err, h1, that2)
                   | Inr meta \<Rightarrow>
                       (Inr (), h1 @ [meta],
                        that2\<lparr>u_prop := (u_prop that2)(Meta := Ref (length h1)),
                               u_ready := True\<rparr>))))"

section \<open>The style object in its environment\<close>

text \<open>
  The world: the object store, the one style object under study, and the shader state the
  renderer passes to the shader-function accessors.
\<close>

record ('n, 'e, 'ss) world =
  store :: "('n, 'e) heap"
  tileStyle :: "('n, 'e) Cesium3DTileStyle"
  shaderState :: 'ss

text \<open>
  Modelled from the spec: the promise library \<^verbatim>\<open>when\<close> and \<^verbatim>\<open>loadJson\<close> are not part of
  this module. The spec has the load as "a one-shot future that resolves or rejects
  exactly once", and an inline document as ready "synchronously (no pending load)": the
  callback chained on an already resolved promise runs before the constructor returns,
  the callback chained on \<^verbatim>\<open>loadJson(url)\<close> runs when the environment delivers the
  document, and a callback that throws rejects \<^verbatim>\<open>_readyPromise\<close>.
\<close>

definition loadResolved ::
  "('n, 'e, 'ss) env \<Rightarrow> ('n, 'e) val \<Rightarrow> ('n, 'e, 'ss) world \<Rightarrow> ('n, 'e, 'ss) world" where
  "loadResolved E styleJson w =
     (case setupStyle E (store w) (tileStyle w) styleJson of
        (Inl err, h1, that1) \<Rightarrow>
          w\<lparr>store := h1, tileStyle := that1\<lparr>u_readyPromise := Rejected err\<rparr>\<rparr>
      | (Inr u, h1, that1) \<Rightarrow>
          w\<lparr>store := h1, tileStyle := that1\<lparr>u_readyPromise := Fulfilled\<rparr>\<rparr>)"

definition loadRejected ::
  "error \<Rightarrow> ('n, 'e, 'ss) world \<Rightarrow> ('n, 'e, 'ss) world" where
  "loadRejected err w = w\<lparr>tileStyle := (tileStyle w)\<lparr>u_readyPromise := Rejected err\<rparr>\<rparr>"

text \<open>The fields as the constructor initialises them.\<close>

definition initialStyle :: "('n, 'e) Cesium3DTileStyle" where
  "initialStyle =
     \<lparr>u_style = Undefined, u_ready = False, u_prop = (\<lambda>p. Undefined),
      u_colorShaderFunction = Undefined, u_showShaderFunction = Undefined,
      u_pointSizeShaderFunction = Undefined, u_colorShaderFunctionReady = False,
      u_showShaderFunctionReady = False, u_pointSizeShaderFunctionReady = False,
      u_readyPromise = Pending\<rparr>"

text \<open>\<^verbatim>\<open>new Cesium3DTileStyle(style)\<close> in a store \<open>h\<close>: a string is a url whose load is
  pending when the constructor returns; anything else is the document itself.\<close>

definition construct ::
  "('n, 'e, 'ss) env \<Rightarrow> ('n, 'e) heap \<Rightarrow> 'ss \<Rightarrow> ('n, 'e) val \<Rightarrow> ('n, 'e, 'ss) world" where
  "construct E h ss style =
     (let w0 = \<lparr>store = h, tileStyle = initialStyle, shaderState = ss\<rparr>
      in if typeof style = ''string'' then w0 else loadResolved E style w0)"

text \<open>
  What can happen to a constructed style object: its getters, setters and accessors are
  called, the pending load settles, and the rest of the program mutates or allocates
  objects of the store.
\<close>

datatype accessor = ColorShaderFunction | ShowShaderFunction | PointSizeShaderFunction

datatype ('n, 'e) op =
    Get styleProperty
  | Set styleProperty "('n, 'e) val"
  | GetStyle
  | GetReady
  | GetReadyPromise
  | Call accessor string string
  | LoadResolves "('n, 'e) val"
  | LoadRejects error
  | Mutate addr "('n, 'e) hobj"
  | Allocate "('n, 'e) hobj"

datatype ('n, 'e) outcome =
    Returns "('n, 'e) val"
  | ReturnsPromise promise
  | Throws error
  | Done

fun outcomeOf :: "error + ('n, 'e) val \<Rightarrow> ('n, 'e) outcome" where
  "outcomeOf (Inl err) = Throws err"
| "outcomeOf (Inr v) = Returns v"

fun callAccessor ::
  "accessor \<Rightarrow> ('n, 'e, 'ss) env \<Rightarrow> ('n, 'e) heap \<Rightarrow> string \<Rightarrow> string \<Rightarrow> 'ss
     \<Rightarrow> ('n, 'e) Cesium3DTileStyle
     \<Rightarrow> (error + ('n, 'e) val) \<times> ('n, 'e) Cesium3DTileStyle \<times> 'ss" where
  "callAccessor ColorShaderFunction = getColorShaderFunction"
| "callAccessor ShowShaderFunction = getShowShaderFunction"
| "callAccessor PointSizeShaderFunction = getPointSizeShaderFunction"

fun step ::
  "('n, 'e, 'ss) env \<Rightarrow> ('n, 'e) op \<Rightarrow> ('n, 'e, 'ss) world
     \<Rightarrow> ('n, 'e) outcome \<times> ('n, 'e, 'ss) world" where
  "step E (Get p) w = (outcomeOf (get_property (tileStyle w) p), w)"
| "step E (Set p v) w =
     (case set_property E (store w) p v (tileStyle w) of
        Inl err \<Rightarrow> (Throws err, w)
      | Inr this1 \<Rightarrow> (Done, w\<lparr>tileStyle := this1\<rparr>))"
| "step E GetStyle w = (outcomeOf (get_style (tileStyle w)), w)"
| "step E GetReady w = (Returns (Bool (get_ready (tileStyle w))), w)"
| "step E GetReadyPromise w = (ReturnsPromise (get_readyPromise (tileStyle w)), w)"
| "step E (Call acc functionName attributePrefix) w =
     (case callAccessor acc E (store w) functionName attributePrefix (shaderState w) (tileStyle w) of
        (r, this1, ss) \<Rightarrow> (outcomeOf r, w\<lparr>tileStyle := this1, shaderState := ss\<rparr>))"
| "step E (LoadResolves styleJson) w =
     (if u_readyPromise (tileStyle w) = Pending then (Done, loadResolved E styleJson w)
      else (Done, w))"
| "step E (LoadRejects err) w =
     (if u_readyPromise (tileStyle w) = Pending then (Done, loadRejected err w)
      else (Done, w))"
| "step E (Mutate a obj) w =
     (Done, if a < length (store w) then w\<lparr>store := (store w)[a := obj]\<rparr> else w)"
| "step E (Allocate obj) w = (Returns (Ref (length (store w))), w\<lparr>store := store w @ [obj]\<rparr>)"

fun run ::
  "('n, 'e, 'ss) env \<Rightarrow> ('n, 'e) op list \<Rightarrow> ('n, 'e, 'ss) world \<Rightarrow> ('n, 'e, 'ss) world" where
  "run E [] w = w"
| "run E (x # xs) w = run E xs (snd (step E x w))"

text \<open>The worlds that a constructor call followed by any operations can produce.\<close>

inductive reachable :: "('n, 'e, 'ss) env \<Rightarrow> ('n, 'e, 'ss) world \<Rightarrow> bool"
  for E :: "('n, 'e, 'ss) env" where
  constructed: "reachable E (construct E h ss style)"
| stepped: "reachable E w \<Longrightarrow> reachable E (snd (step E x w))"

text \<open>The cache of an accessor, and the property it compiles.\<close>

fun cacheReady :: "accessor \<Rightarrow> ('n, 'e) Cesium3DTileStyle \<Rightarrow> bool" where
  "cacheReady ColorShaderFunction this = u_colorShaderFunctionReady this"
| "cacheReady ShowShaderFunction this = u_showShaderFunctionReady this"
| "cacheReady PointSizeShaderFunction this = u_pointSizeShaderFunctionReady this"

fun cacheValue :: "accessor \<Rightarrow> ('n, 'e) Cesium3DTileStyle \<Rightarrow> ('n, 'e) val" where
  "cacheValue ColorShaderFunction this = u_colorShaderFunction this"
| "cacheValue ShowShaderFunction this = u_showShaderFunction this"
| "cacheValue PointSizeShaderFunction this = u_pointSizeShaderFunction this"

fun propertyOf :: "accessor \<Rightarrow> styleProperty" where
  "propertyOf ColorShaderFunction = Color"
| "propertyOf ShowShaderFunction = Show"
| "propertyOf PointSizeShaderFunction = PointSize"

section \<open>Notions used to state the properties\<close>

text \<open>
  An operation that assigns property \<open>p\<close> through its setter: the caller's assignment, or
  the resolution of the load, whose \<^verbatim>\<open>setup\<close> assigns every property of the document.
\<close>

fun reassigns :: "styleProperty \<Rightarrow> ('n, 'e) op \<Rightarrow> bool" where
  "reassigns p (Set q v) = (q = p)"
| "reassigns p (LoadResolves styleJson) = True"
| "reassigns p x = False"

text \<open>The type name each accessor passes to \<^verbatim>\<open>getShaderFunction\<close>.\<close>

fun returnTypeOf :: "accessor \<Rightarrow> string" where
  "returnTypeOf ColorShaderFunction = ''vec4''"
| "returnTypeOf ShowShaderFunction = ''bool''"
| "returnTypeOf PointSizeShaderFunction = ''float''"

text \<open>
  The coercion of a setter as the specification words it, by the kind of the value: a
  boolean or number becomes an \<^verbatim>\<open>Expression\<close> built from its string form; a string is
  parsed as an \<^verbatim>\<open>Expression\<close> with the document's \<open>defines\<close>; an object with a
  \<^verbatim>\<open>conditions\<close> field becomes a \<^verbatim>\<open>ConditionsExpression\<close> with the same \<open>defines\<close>; any
  other value passes through; \<^verbatim>\<open>undefined\<close> stays \<^verbatim>\<open>undefined\<close>.
\<close>

fun coerceSpec ::
  "('n, 'e, 'ss) env \<Rightarrow> ('n, 'e) heap \<Rightarrow> ('n, 'e) val \<Rightarrow> ('n, 'e) val \<Rightarrow> error + ('n, 'e) val" where
  "coerceSpec E h defines (Bool b) =
     map_sum id ExpressionObj (newExpression E h (Str (if b then ''true'' else ''false'')) Undefined)"
| "coerceSpec E h defines (Num n) =
     map_sum id ExpressionObj (newExpression E h (Str (numberToString E n)) Undefined)"
| "coerceSpec E h defines (Str s) =
     map_sum id ExpressionObj (newExpression E h (Str s) defines)"
| "coerceSpec E h defines Undefined = Inr Undefined"
| "coerceSpec E h defines v =
     (if defined (member h v ''conditions'')
      then map_sum id ConditionsExpressionObj (newConditionsExpression E h v defines)
      else Inr v)"

text \<open>
  A value of the store read as a finite tree, to compare a document with its clone: an
  object is a node carrying its kind and its properties in order, a primitive or a function
  is a leaf. A value nested more than \<open>d\<close> objects deep, a dangling reference and anything
  containing an expression instance, or an object whose prototype is one, have no tree.
  Two values, each in its store, are structurally equal when they have the same tree.
\<close>

datatype ('n, 'e) tree = Leaf "('n, 'e) val" | Node "'e kind" "(string \<times> ('n, 'e) tree) list"

fun leafOf :: "('n, 'e) val \<Rightarrow> ('n, 'e) tree option" where
  "leafOf (Ref a) = None"
| "leafOf EMPTY_OBJECT = None"
| "leafOf (ExpressionObj e) = None"
| "leafOf (ConditionsExpressionObj e) = None"
| "leafOf v = Some (Leaf v)"

fun reifyProps ::
  "(('n, 'e) heap \<Rightarrow> ('n, 'e) val \<Rightarrow> ('n, 'e) tree option) \<Rightarrow> ('n, 'e) heap
     \<Rightarrow> (string \<times> ('n, 'e) val) list \<Rightarrow> (string \<times> ('n, 'e) tree) list option" where
  "reifyProps f h [] = Some []"
| "reifyProps f h ((k, v) # ps) =
     (case f h v of
        None \<Rightarrow> None
      | Some t \<Rightarrow>
          (case reifyProps f h ps of
             None \<Rightarrow> None
           | Some ts \<Rightarrow> Some ((k, t) # ts)))"

primrec reify :: "nat \<Rightarrow> ('n, 'e) heap \<Rightarrow> ('n, 'e) val \<Rightarrow> ('n, 'e) tree option" where
  "reify 0 h v = (case objectAt h v of None \<Rightarrow> leafOf v | Some obj \<Rightarrow> None)"
| "reify (Suc d) h v =
     (case objectAt h v of
        None \<Rightarrow> leafOf v
      | Some obj \<Rightarrow>
          (case kindOf obj of
             Inheriting e \<Rightarrow> None
           | _ \<Rightarrow>
               (case reifyProps (reify d) h (props obj) of
                  None \<Rightarrow> None
                | Some ts \<Rightarrow> Some (Node (kindOf obj) ts))))"

text \<open>The store \<open>H\<close> has every object that \<open>h1\<close> has at the addresses from \<open>lo\<close> on.\<close>

definition agreesFrom :: "nat \<Rightarrow> 'a list \<Rightarrow> 'a list \<Rightarrow> bool" where
  "agreesFrom lo h1 H = (length h1 \<le> length H \<and> (\<forall>a. lo \<le> a \<and> a < length h1 \<longrightarrow> H ! a = h1 ! a))"

section \<open>A sample host and sample documents\<close>

text \<open>
  Modelled from the spec: the classes \<^verbatim>\<open>Expression\<close> and \<^verbatim>\<open>ConditionsExpression\<close> are not
  part of this module. The spec has the parser fail "on malformed input", "at
  parse/construction time". This small host runs the model at concrete inputs: numbers are
  integers, an expression instance is its source text, and the shader state is the list of
  the function names compiled so far, newest first. Its \<^verbatim>\<open>Expression\<close> constructor fails
  on the malformed source \<^verbatim>\<open>(\<close> and on a source that is not a string, and accepts every
  other string. A function used as \<^verbatim>\<open>hasOwnProperty\<close> answers true, instances and
  functions have nothing to enumerate, and an assignment below an instance prototype adds
  the property.
\<close>

definition sampleEnv :: "(int, string, string list) env" where
  "sampleEnv =
     \<lparr>numberToString = (\<lambda>n. if n < 0 then CHR ''-'' # decimal (nat (- n)) else decimal (nat n)),
      newExpression = (\<lambda>h v defines.
         case v of
           Str s \<Rightarrow> if s = ''('' then Inl (RuntimeError ''Unexpected end of expression'') else Inr s
         | _ \<Rightarrow> Inl (DeveloperError ''expression must be a string'')),
      newConditionsExpression = (\<lambda>h v defines. Inr ''conditions''),
      getShaderFunction = (\<lambda>h c functionName attributePrefix ss returnType.
         (Inr (Str (returnType @ '' '' @ functionName)), functionName # ss)),
      stackDepth = 16,
      callFunction = (\<lambda>h f x name. Inr True),
      hostForIn = (\<lambda>h x. []),
      assignInherited = (\<lambda>e name. Inr True)\<rparr>"

definition sampleStore :: "(int, string) heap" where
  "sampleStore =
     [HObj PlainObject [(''show'', Str ''h > 0''), (''color'', Ref 1), (''pointSize'', Num 2),
                        (''meta'', Ref 4)],
      HObj PlainObject [(''conditions'', Ref 2)],
      HObj ArrayObject [(''0'', Ref 3)],
      HObj ArrayObject [(''0'', Str ''true''), (''1'', Str ''color(blue)'')],
      HObj PlainObject [(''description'', Str ''text'')]]"

definition inlineWorld :: "(int, string, string list) world" where
  "inlineWorld = construct sampleEnv sampleStore [] (Ref 0)"

definition urlWorld :: "(int, string, string list) world" where
  "urlWorld = construct sampleEnv sampleStore [] (Str ''style.json'')"

text \<open>\<^verbatim>\<open>new Cesium3DTileStyle()\<close>: no document, every property unset.\<close>

definition emptyWorld :: "(int, string, string list) world" where
  "emptyWorld = construct sampleEnv [] [] Undefined"

text \<open>A document whose \<^verbatim>\<open>show\<close> expression is malformed.\<close>

definition malformedStore :: "(int, string) heap" where
  "malformedStore = [HObj PlainObject [(''show'', Str ''('')]]"

text \<open>The sample document, object 0 of \<open>sampleStore\<close>, as a tree.\<close>

definition sampleTree :: "(int, string) tree" where
  "sampleTree =
     Node PlainObject
       [(''show'', Leaf (Str ''h > 0'')),
        (''color'', Node PlainObject
           [(''conditions'', Node ArrayObject
              [(''0'', Node ArrayObject
                 [(''0'', Leaf (Str ''true'')), (''1'', Leaf (Str ''color(blue)''))])])]),
        (''pointSize'', Leaf (Num 2)),
        (''meta'', Node PlainObject [(''description'', Leaf (Str ''text''))])]"

text \<open>Documents, as \<^verbatim>\<open>JSON.parse\<close> builds them, whose \<^verbatim>\<open>meta\<close> has an own key
  \<^verbatim>\<open>__proto__\<close>, and an own key \<^verbatim>\<open>hasOwnProperty\<close>.\<close>

definition protoKeyStore :: "(int, string) heap" where
  "protoKeyStore =
     [HObj PlainObject [(''meta'', Ref 1)],
      HObj PlainObject [(''title'', Str ''a''), (''__proto__'', Str ''b'')]]"

definition guardKeyStore :: "(int, string) heap" where
  "guardKeyStore =
     [HObj PlainObject [(''meta'', Ref 1)],
      HObj PlainObject [(''title'', Str ''a''), (''hasOwnProperty'', Str ''b'')]]"

text \<open>The inline style after its show and color shader functions have been requested.\<close>

definition bothCachedWorld :: "(int, string, string list) world" where
  "bothCachedWorld =
     run sampleEnv
       [Call ShowShaderFunction ''getShow'' ''a_'', Call ColorShaderFunction ''getColor'' ''a_'']
       inlineWorld"

section \<open>Frame lemmas\<close>

lemma invalidate_frame [simp]:
  "u_ready (invalidate p s) = u_ready s"
  "u_style (invalidate p s) = u_style s"
  "u_prop (invalidate p s) = u_prop s"
  "u_readyPromise (invalidate p s) = u_readyPromise s"
  "u_colorShaderFunction (invalidate p s) = u_colorShaderFunction s"
  "u_showShaderFunction (invalidate p s) = u_showShaderFunction s"
  "u_pointSizeShaderFunction (invalidate p s) = u_pointSizeShaderFunction s"
  by (cases p; simp)+

lemma invalidate_flags [simp]:
  "u_colorShaderFunctionReady (invalidate p s) = (p \<noteq> Color \<and> u_colorShaderFunctionReady s)"
  "u_showShaderFunctionReady (invalidate p s) = (p \<noteq> Show \<and> u_showShaderFunctionReady s)"
  "u_pointSizeShaderFunctionReady (invalidate p s) = (p \<noteq> PointSize \<and> u_pointSizeShaderFunctionReady s)"
  by (cases p; simp)+

lemma set_property_frame:
  assumes "set_property E h p v s = Inr s'"
  shows "u_ready s' = u_ready s" and "u_style s' = u_style s"
    and "u_readyPromise s' = u_readyPromise s"
    and "u_colorShaderFunction s' = u_colorShaderFunction s"
    and "u_showShaderFunction s' = u_showShaderFunction s"
    and "u_pointSizeShaderFunction s' = u_pointSizeShaderFunction s"
    and "\<And>q. q \<noteq> p \<Longrightarrow> u_prop s' q = u_prop s q"
  using assms by (auto simp: set_property_def split: if_splits sum.splits)

lemma set_property_flags:
  assumes "set_property E h p v s = Inr s'"
  shows "u_colorShaderFunctionReady s' = (p \<noteq> Color \<and> u_colorShaderFunctionReady s)"
    and "u_showShaderFunctionReady s' = (p \<noteq> Show \<and> u_showShaderFunctionReady s)"
    and "u_pointSizeShaderFunctionReady s' = (p \<noteq> PointSize \<and> u_pointSizeShaderFunctionReady s)"
  using assms by (auto simp: set_property_def split: if_splits sum.splits)

lemma assignAll_frame:
  assumes "assignAll E h j ps s = (r, s')"
  shows "u_ready s' = u_ready s \<and> u_style s' = u_style s \<and> u_readyPromise s' = u_readyPromise s
    \<and> u_colorShaderFunction s' = u_colorShaderFunction s
    \<and> u_showShaderFunction s' = u_showShaderFunction s
    \<and> u_pointSizeShaderFunction s' = u_pointSizeShaderFunction s"
  using assms
proof (induction ps arbitrary: s)
  case Nil
  then show ?case by simp
next
  case (Cons p ps)
  show ?case
  proof (cases "set_property E h p (member h j (propertyName p)) s")
    case (Inl e)
    with Cons.prems show ?thesis by simp
  next
    case (Inr s1)
    with Cons.prems have "assignAll E h j ps s1 = (r, s')" by simp
    from Cons.IH[OF this] set_property_frame[OF Inr] show ?thesis by simp
  qed
qed

lemma accessor_frame:
  assumes "callAccessor acc E h fn ap ss s = (r, s', ss')"
  shows "u_ready s' = u_ready s" and "u_style s' = u_style s"
    and "u_readyPromise s' = u_readyPromise s" and "u_prop s' = u_prop s"
  using assms
  by (cases acc; auto simp: getColorShaderFunction_def getShowShaderFunction_def
      getPointSizeShaderFunction_def get_property_def Let_def split: if_splits sum.splits prod.splits)+

lemma setupStyle_ready:
  assumes "setupStyle E h s j = (r, h', s')"
  shows "u_ready s' = (u_ready s \<or> r = Inr ())" and "u_readyPromise s' = u_readyPromise s"
  using assms
  by (auto simp: setupStyle_def Let_def split: prod.splits sum.splits if_splits dest!: assignAll_frame)

lemma loadResolved_ready:
  "u_ready (tileStyle (loadResolved E j w)) =
     (u_ready (tileStyle w) \<or> fst (setupStyle E (store w) (tileStyle w) j) = Inr ())"
  "u_readyPromise (tileStyle (loadResolved E j w)) =
     (case fst (setupStyle E (store w) (tileStyle w) j) of Inl err \<Rightarrow> Rejected err | Inr u \<Rightarrow> Fulfilled)"
  by (auto simp: loadResolved_def split: prod.splits sum.splits dest: setupStyle_ready)

lemma step_ready:
  "u_ready (tileStyle (snd (step E x w))) =
     (u_ready (tileStyle w) \<or>
      (\<exists>j. x = LoadResolves j \<and> u_readyPromise (tileStyle w) = Pending
           \<and> fst (setupStyle E (store w) (tileStyle w) j) = Inr ()))"
proof (cases x)
  case (Set p v)
  then show ?thesis by (auto split: sum.splits dest: set_property_frame(1))
next
  case (Call acc fn ap)
  then show ?thesis by (auto split: prod.splits dest: accessor_frame(1))
next
  case (LoadResolves j)
  then show ?thesis by (auto simp: loadResolved_ready)
qed (auto simp: loadRejected_def)

lemma step_promise:
  "u_readyPromise (tileStyle (snd (step E x w))) =
     (if u_readyPromise (tileStyle w) = Pending then
        (case x of
           LoadResolves j \<Rightarrow>
             (case fst (setupStyle E (store w) (tileStyle w) j) of
                Inl err \<Rightarrow> Rejected err | Inr u \<Rightarrow> Fulfilled)
         | LoadRejects err \<Rightarrow> Rejected err
         | _ \<Rightarrow> Pending)
      else u_readyPromise (tileStyle w))"
proof (cases x)
  case (Set p v)
  then show ?thesis by (auto split: sum.splits dest: set_property_frame(3))
next
  case (Call acc fn ap)
  then show ?thesis by (auto split: prod.splits dest: accessor_frame(3))
next
  case (LoadResolves j)
  then show ?thesis by (auto simp: loadResolved_ready)
qed (auto simp: loadRejected_def)

lemma run_ready_mono:
  "u_ready (tileStyle w) \<Longrightarrow> u_ready (tileStyle (run E xs w))"
  by (induction xs arbitrary: w) (simp_all add: step_ready)

lemma run_settled:
  "u_readyPromise (tileStyle w) \<noteq> Pending \<Longrightarrow>
     u_readyPromise (tileStyle (run E xs w)) = u_readyPromise (tileStyle w)
     \<and> u_ready (tileStyle (run E xs w)) = u_ready (tileStyle w)"
proof (induction xs arbitrary: w)
  case Nil
  then show ?case by simp
next
  case (Cons x xs)
  have p: "u_readyPromise (tileStyle (snd (step E x w))) = u_readyPromise (tileStyle w)"
    using Cons.prems by (simp add: step_promise)
  have r: "u_ready (tileStyle (snd (step E x w))) = u_ready (tileStyle w)"
    using Cons.prems by (auto simp: step_ready)
  from Cons.IH[of "snd (step E x w)"] p r Cons.prems show ?case by simp
qed

lemma construct_ready_iff:
  "u_ready (tileStyle (construct E h ss v)) = (u_readyPromise (tileStyle (construct E h ss v)) = Fulfilled)"
  by (auto simp: construct_def Let_def loadResolved_ready initialStyle_def split: sum.splits)

lemma reachable_ready_iff:
  "reachable E w \<Longrightarrow> u_ready (tileStyle w) = (u_readyPromise (tileStyle w) = Fulfilled)"
proof (induction rule: reachable.induct)
  case (constructed h ss style)
  show ?case by (rule construct_ready_iff)
next
  case (stepped w x)
  then show ?case
    by (auto simp: step_ready step_promise split: op.splits sum.splits if_splits)
qed

section \<open>The shader-function caches\<close>

lemma cached_call:
  "cacheReady acc s \<Longrightarrow> callAccessor acc E h fn ap ss s = (Inr (cacheValue acc s), s, ss)"
  by (cases acc) (simp_all add: getColorShaderFunction_def getShowShaderFunction_def
      getPointSizeShaderFunction_def)

lemma cached_step:
  "cacheReady acc (tileStyle w) \<Longrightarrow>
     step E (Call acc fn ap) w = (Returns (cacheValue acc (tileStyle w)), w)"
  by (simp add: cached_call)

lemma call_marks_ready:
  assumes "callAccessor acc E h fn ap ss s = (r, s', ss')"
  shows "cacheReady acc s'"
    and "\<And>v. r = Inr v \<Longrightarrow> cacheValue acc s' = v"
    and "r = Inl notLoaded \<or> u_ready s \<or> cacheReady acc s"
  using assms
  by (cases acc; auto simp: getColorShaderFunction_def getShowShaderFunction_def
      getPointSizeShaderFunction_def get_property_def Let_def
      split: if_splits sum.splits prod.splits)+

lemma call_other_cache:
  assumes "callAccessor acc E h fn ap ss s = (r, s', ss')" and "b \<noteq> acc"
  shows "cacheReady b s' = cacheReady b s" and "cacheValue b s' = cacheValue b s"
  using assms
  by (cases acc; cases b; auto simp: getColorShaderFunction_def getShowShaderFunction_def
      getPointSizeShaderFunction_def get_property_def Let_def
      split: if_splits sum.splits prod.splits)+

lemma set_property_cache:
  assumes "set_property E h p v s = Inr s'"
  shows "cacheValue b s' = cacheValue b s"
    and "cacheReady b s' = (p \<noteq> propertyOf b \<and> cacheReady b s)"
  using assms set_property_frame[OF assms] set_property_flags[OF assms]
  by (cases b; auto)+

lemma cache_promise_update [simp]:
  "cacheReady b (s\<lparr>u_readyPromise := q\<rparr>) = cacheReady b s"
  "cacheValue b (s\<lparr>u_readyPromise := q\<rparr>) = cacheValue b s"
  by (cases b; simp)+

lemma step_keeps_cache:
  assumes "cacheReady b (tileStyle w)"
    and "\<forall>v. x \<noteq> Set (propertyOf b) v"
    and "u_readyPromise (tileStyle w) \<noteq> Pending \<or> (\<forall>j. x \<noteq> LoadResolves j)"
  shows "cacheReady b (tileStyle (snd (step E x w)))
     \<and> cacheValue b (tileStyle (snd (step E x w))) = cacheValue b (tileStyle w)"
proof (cases x)
  case (Set p v)
  with assms(2) have "p \<noteq> propertyOf b" by auto
  with Set assms(1) show ?thesis
    by (auto split: sum.splits dest: set_property_cache)
next
  case (Call acc fn ap)
  show ?thesis
  proof (cases "acc = b")
    case True
    with Call assms(1) show ?thesis by (simp add: cached_call)
  next
    case False
    obtain r s' ss' where c: "callAccessor acc E (store w) fn ap (shaderState w) (tileStyle w) = (r, s', ss')"
      by (cases "callAccessor acc E (store w) fn ap (shaderState w) (tileStyle w)") auto
    from False have "b \<noteq> acc" by simp
    from call_other_cache[OF c this] Call c assms(1) show ?thesis by simp
  qed
next
  case (LoadResolves j)
  with assms show ?thesis by auto
qed (use assms(1) in \<open>auto simp: loadRejected_def\<close>)

lemma run_keeps_cache:
  assumes "cacheReady b (tileStyle w)" and "\<forall>x\<in>set xs. \<not> reassigns (propertyOf b) x"
  shows "cacheReady b (tileStyle (run E xs w))
     \<and> cacheValue b (tileStyle (run E xs w)) = cacheValue b (tileStyle w)"
  using assms
proof (induction xs arbitrary: w)
  case Nil
  then show ?case by simp
next
  case (Cons x xs)
  from Cons.prems(2) have nx: "\<not> reassigns (propertyOf b) x" by simp
  then have a: "\<forall>v. x \<noteq> Set (propertyOf b) v" and b: "\<forall>j. x \<noteq> LoadResolves j" by auto
  from step_keeps_cache[OF Cons.prems(1) a, of E] b
  have k: "cacheReady b (tileStyle (snd (step E x w)))"
    "cacheValue b (tileStyle (snd (step E x w))) = cacheValue b (tileStyle w)" by auto
  from Cons.IH[OF k(1)] Cons.prems(2) k(2) show ?case by simp
qed

lemma run_keeps_cache_settled:
  assumes "cacheReady b (tileStyle w)" and "u_readyPromise (tileStyle w) \<noteq> Pending"
    and "\<forall>x\<in>set xs. \<forall>v. x \<noteq> Set (propertyOf b) v"
  shows "cacheReady b (tileStyle (run E xs w))
     \<and> cacheValue b (tileStyle (run E xs w)) = cacheValue b (tileStyle w)"
  using assms
proof (induction xs arbitrary: w)
  case Nil
  then show ?case by simp
next
  case (Cons x xs)
  from Cons.prems(3) have a: "\<forall>v. x \<noteq> Set (propertyOf b) v" by simp
  from step_keeps_cache[OF Cons.prems(1) a, of E] Cons.prems(2)
  have k: "cacheReady b (tileStyle (snd (step E x w)))"
    "cacheValue b (tileStyle (snd (step E x w))) = cacheValue b (tileStyle w)" by auto
  have p: "u_readyPromise (tileStyle (snd (step E x w))) \<noteq> Pending"
    using Cons.prems(2) by (simp add: step_promise)
  from Cons.IH[OF k(1) p] Cons.prems(3) k(2) show ?case by simp
qed

lemma setupStyle_cache:
  assumes "setupStyle E h s j = (r, h', s')"
  shows "cacheValue b s' = cacheValue b s"
  using assms
  by (cases b; auto simp: setupStyle_def Let_def split: prod.splits sum.splits if_splits
      dest!: assignAll_frame)

lemma loadResolved_cache:
  "cacheValue b (tileStyle (loadResolved E j w)) = cacheValue b (tileStyle w)"
  by (auto simp: loadResolved_def split: prod.splits sum.splits dest: setupStyle_cache)

lemma call_undefined_kept:
  assumes c: "callAccessor a E h fn ap ss s = (r, s', ss')"
    and ih: "\<And>b. \<not> u_ready s \<or> cacheReady b s \<and> \<not> defined (u_prop s (propertyOf b))
               \<Longrightarrow> cacheValue b s = Undefined"
    and p: "\<not> u_ready s' \<or> cacheReady b s' \<and> \<not> defined (u_prop s' (propertyOf b))"
  shows "cacheValue b s' = Undefined"
proof (cases "b = a")
  case False
  from call_other_cache[OF c False] accessor_frame[OF c] ih[of b] p show ?thesis by auto
next
  case True
  show ?thesis
  proof (cases "cacheReady a s")
    case True
    with c have "s' = s" by (simp add: cached_call)
    with ih[of b] p show ?thesis by simp
  next
    case nr: False
    show ?thesis
    proof (cases "u_ready s")
      case False
      with nr c have "cacheValue a s' = cacheValue a s"
        by (cases a; auto simp: getColorShaderFunction_def getShowShaderFunction_def
            getPointSizeShaderFunction_def get_property_def Let_def)
      with ih[of a] False \<open>b = a\<close> show ?thesis by simp
    next
      case True
      with p accessor_frame[OF c] \<open>b = a\<close>
      have nd: "\<not> defined (u_prop s (propertyOf a))" by simp
      with nr True c have "cacheValue a s' = Undefined"
        by (cases a; auto simp: getColorShaderFunction_def getShowShaderFunction_def
            getPointSizeShaderFunction_def get_property_def Let_def)
      with \<open>b = a\<close> show ?thesis by simp
    qed
  qed
qed

lemma reachable_cache_undefined:
  assumes "reachable E w"
    and "\<not> u_ready (tileStyle w)
         \<or> cacheReady b (tileStyle w) \<and> \<not> defined (u_prop (tileStyle w) (propertyOf b))"
  shows "cacheValue b (tileStyle w) = Undefined"
  using assms
proof (induction arbitrary: b rule: reachable.induct)
  case (constructed h ss style)
  have "cacheValue b (initialStyle :: ('a, 'b) Cesium3DTileStyle) = Undefined"
    by (cases b) (simp_all add: initialStyle_def)
  then show ?case by (simp add: construct_def Let_def loadResolved_cache)
next
  case (stepped w x)
  show ?case
  proof (cases x)
    case (Set p v)
    show ?thesis
    proof (cases "set_property E (store w) p v (tileStyle w)")
      case (Inl err)
      with Set stepped show ?thesis by simp
    next
      case (Inr s')
      with Set have t: "tileStyle (snd (step E x w)) = s'" by simp
      from stepped.prems t set_property_frame(1,7)[OF Inr] set_property_cache[OF Inr, of b]
      have "\<not> u_ready (tileStyle w)
         \<or> cacheReady b (tileStyle w) \<and> \<not> defined (u_prop (tileStyle w) (propertyOf b))"
        by auto
      from stepped.IH[OF this] t set_property_cache(1)[OF Inr, of b] show ?thesis by simp
    qed
  next
    case (Call a fn ap)
    obtain r s' ss' where c:
      "callAccessor a E (store w) fn ap (shaderState w) (tileStyle w) = (r, s', ss')"
      by (cases "callAccessor a E (store w) fn ap (shaderState w) (tileStyle w)") auto
    with Call have t: "tileStyle (snd (step E x w)) = s'" by simp
    from call_undefined_kept[OF c stepped.IH, of b] stepped.prems t show ?thesis by simp
  next
    case (LoadResolves j)
    show ?thesis
    proof (cases "u_readyPromise (tileStyle w) = Pending")
      case True
      with stepped.hyps have "\<not> u_ready (tileStyle w)" using reachable_ready_iff[of E w] by simp
      from stepped.IH[of b] this True LoadResolves show ?thesis by (simp add: loadResolved_cache)
    next
      case False
      with LoadResolves stepped show ?thesis by simp
    qed
  next
    case (LoadRejects err)
    with stepped.prems stepped.IH[of b] show ?thesis
      by (cases "u_readyPromise (tileStyle w) = Pending") (auto simp: loadRejected_def)
  qed (use stepped in \<open>auto split: if_splits\<close>)
qed

lemma call_unready:
  assumes "\<not> u_ready s" and "\<not> cacheReady acc s"
    and "callAccessor acc E h fn ap ss s = (r, s', ss')"
  shows "r = Inl notLoaded" and "ss' = ss" and "cacheReady acc s'"
    and "cacheValue acc s' = cacheValue acc s" and "s' \<noteq> s"
proof -
  show "r = Inl notLoaded" and "ss' = ss" and c: "cacheReady acc s'"
    and "cacheValue acc s' = cacheValue acc s"
    using assms
    by (cases acc; simp add: getColorShaderFunction_def getShowShaderFunction_def
        getPointSizeShaderFunction_def get_property_def Let_def; force)+
  from c assms(2) show "s' \<noteq> s" by auto
qed

lemma call_unset:
  assumes "u_ready s" and "\<not> cacheReady acc s" and "\<not> defined (u_prop s (propertyOf acc))"
    and "callAccessor acc E h fn ap ss s = (r, s', ss')"
  shows "r = Inr Undefined" and "ss' = ss" and "cacheReady acc s'"
    and "cacheValue acc s' = Undefined"
  using assms
  by (cases acc; auto simp: getColorShaderFunction_def getShowShaderFunction_def
      getPointSizeShaderFunction_def get_property_def Let_def)+

lemma call_miss:
  assumes "u_ready s" and "\<not> cacheReady acc s"
  shows "fst (callAccessor acc E h fn ap ss s) =
     (if defined (u_prop s (propertyOf acc))
      then fst (getShaderFunction E h (u_prop s (propertyOf acc)) fn ap ss (returnTypeOf acc))
      else Inr Undefined)"
  using assms
  by (cases acc) (auto simp: getColorShaderFunction_def getShowShaderFunction_def
      getPointSizeShaderFunction_def get_property_def Let_def split: prod.splits sum.splits)

lemma reachable_run: "reachable E w \<Longrightarrow> reachable E (run E xs w)"
proof (induction xs arbitrary: w)
  case Nil
  then show ?case by simp
next
  case (Cons x xs)
  from Cons.prems have "reachable E (snd (step E x w))" by (rule reachable.stepped)
  from Cons.IH[OF this] show ?case by simp
qed

text \<open>The resolution of the load reassigns every property, so it clears the three caches:
  a cache marked by a call on the unready style does not outlive the load.\<close>

lemma assignAll_cacheReady:
  assumes "assignAll E h j ps s = (Inr u, s')"
  shows "cacheReady b s' = (propertyOf b \<notin> set ps \<and> cacheReady b s)"
  using assms
proof (induction ps arbitrary: s)
  case Nil
  then show ?case by simp
next
  case (Cons p ps)
  from Cons.prems obtain s1 where
    s1: "set_property E h p (member h j (propertyName p)) s = Inr s1"
    and rest: "assignAll E h j ps s1 = (Inr u, s')"
    by (auto split: sum.splits)
  from Cons.IH[OF rest] set_property_cache(2)[OF s1, of b] show ?case by auto
qed

lemma load_resolution_clears_caches:
  assumes "u_ready (tileStyle (loadResolved E j w))" and "\<not> u_ready (tileStyle w)"
  shows "\<not> cacheReady b (tileStyle (loadResolved E j w))"
proof -
  obtain r h1 s1 where s: "setupStyle E (store w) (tileStyle w) j = (r, h1, s1)"
    by (cases "setupStyle E (store w) (tileStyle w) j") auto
  with assms have r: "r = Inr ()" by (auto simp: loadResolved_ready)
  have m: "propertyOf b \<in> set setupOrder" by (cases b) (simp_all add: setupOrder_def)
  have "\<not> cacheReady b s1"
    using s r m
    by (cases b; auto simp: setupStyle_def Let_def split: prod.splits sum.splits
        dest!: assignAll_cacheReady[where b = b])
  with s r show ?thesis by (cases b) (simp_all add: loadResolved_def)
qed

section \<open>Coercion and the meta loop\<close>

lemma member_defaultValue [simp]:
  "member h (defaultValue v EMPTY_OBJECT) name = member h v name"
  by (cases v) (simp_all add: defaultValue_def member_def)

lemma getExpression_coerceSpec:
  "v \<noteq> Null \<Longrightarrow> getExpression E h this v = coerceSpec E h (member h (u_style this) ''defines'') v"
  by (cases v) (auto simp: getExpression_def split: sum.splits)

lemma putProp_set: "set (putProp k v ps) \<subseteq> insert (k, v) (set ps)"
  by (induction ps) (auto split: if_splits)

lemma putProp_keys: "fst ` set (putProp k v ps) = insert k (fst ` set ps)"
  by (induction ps) (force split: if_splits)+

lemma assignMeta_cases:
  assumes "assignMeta E name e (HObj k ps) = Inr m'"
  shows "((name \<noteq> ''__proto__'' \<or> map_of ps name \<noteq> None)
          \<and> (m' = HObj k (putProp name (ExpressionObj e) ps) \<or> m' = HObj k ps))
       \<or> (name = ''__proto__'' \<and> map_of ps name = None \<and> m' = HObj (Inheriting e) ps)"
proof (cases "map_of ps name \<noteq> None")
  case True
  with assms show ?thesis by simp
next
  case False
  note nm = this
  show ?thesis
  proof (cases "name = ''__proto__''")
    case True
    with assms nm show ?thesis by simp
  next
    case False
    with assms nm show ?thesis
      by (cases k) (simp_all split: sum.splits if_splits)
  qed
qed

lemma assignMeta_result:
  assumes "assignMeta E name e m = Inr m'" and "''__proto__'' \<notin> fst ` set (props m)"
  shows "''__proto__'' \<notin> fst ` set (props m')"
    and "set (props m') \<subseteq> insert (name, ExpressionObj e) (set (props m))"
    and "kindOf m' = kindOf m \<or> (name = ''__proto__'' \<and> kindOf m' = Inheriting e)"
proof -
  obtain k ps where m: "m = HObj k ps" by (cases m)
  have nomap: "map_of ps ''__proto__'' = None"
    using assms(2) m by (simp add: map_of_eq_None_iff)
  have sub: "set (putProp name (ExpressionObj e) ps) \<subseteq> insert (name, ExpressionObj e) (set ps)"
    by (rule putProp_set)
  have keys: "fst ` set (putProp name (ExpressionObj e) ps) = insert name (fst ` set ps)"
    by (rule putProp_keys)
  from assms(2) m have np: "''__proto__'' \<notin> fst ` set ps" by simp
  from assignMeta_cases[OF assms(1)[unfolded m]]
  consider (put) "name \<noteq> ''__proto__''" "m' = HObj k (putProp name (ExpressionObj e) ps)"
    | (same) "m' = HObj k ps"
    | (proto) "name = ''__proto__''" "m' = HObj (Inheriting e) ps"
    using nomap by auto
  then show "''__proto__'' \<notin> fst ` set (props m')"
  proof cases
    case put
    with keys np show ?thesis by simp
  next
    case same
    with np show ?thesis by simp
  next
    case proto
    with np show ?thesis by simp
  qed
  from assignMeta_cases[OF assms(1)[unfolded m]] sub m
  show "set (props m') \<subseteq> insert (name, ExpressionObj e) (set (props m))"
    by auto
  from assignMeta_cases[OF assms(1)[unfolded m]] m
  show "kindOf m' = kindOf m \<or> (name = ''__proto__'' \<and> kindOf m' = Inheriting e)"
    by auto
qed

lemma assignMeta_plain:
  assumes "assignMeta E name e m = Inr m'" and "name \<noteq> ''__proto__''"
    and "kindOf m = PlainObject"
  shows "kindOf m' = PlainObject" and "fst ` set (props m') = insert name (fst ` set (props m))"
proof -
  obtain k ps where m: "m = HObj k ps" by (cases m)
  with assms(3) have k: "k = PlainObject" by simp
  from assms(1,2) m k have m': "m' = HObj PlainObject (putProp name (ExpressionObj e) ps)"
    by (auto split: if_splits)
  then show "kindOf m' = PlainObject" by simp
  from m' m show "fst ` set (props m') = insert name (fst ` set (props m))"
    by (simp add: putProp_keys)
qed

lemma wrapMeta_sound:
  assumes "wrapMeta E h d gs m0 = Inr m" and "''__proto__'' \<notin> fst ` set (props m0)"
  shows "''__proto__'' \<notin> fst ` set (props m)
     \<and> (\<forall>k x. (k, x) \<in> set (props m) \<longrightarrow> (k, x) \<in> set (props m0)
           \<or> (\<exists>v e. (k, v, Inr True) \<in> set gs \<and> newExpression E h v d = Inr e
                  \<and> x = ExpressionObj e))
     \<and> (kindOf m = kindOf m0
          \<or> (\<exists>v e. (''__proto__'', v, Inr True) \<in> set gs \<and> newExpression E h v d = Inr e
                 \<and> kindOf m = Inheriting e))"
  using assms
proof (induction gs arbitrary: m0)
  case Nil
  then show ?case by simp
next
  case (Cons g gs)
  obtain k v gd where g: "g = (k, v, gd)" by (cases g)
  from Cons.prems(1) g obtain own where gd: "gd = Inr own" by (cases gd) auto
  show ?case
  proof (cases own)
    case False
    with Cons.prems(1) g gd have "wrapMeta E h d gs m0 = Inr m" by simp
    from Cons.IH[OF this Cons.prems(2)] have
      np: "''__proto__'' \<notin> fst ` set (props m)"
      and vals: "\<And>k' x. (k', x) \<in> set (props m) \<Longrightarrow> (k', x) \<in> set (props m0)
           \<or> (\<exists>v e. (k', v, Inr True) \<in> set gs \<and> newExpression E h v d = Inr e
                  \<and> x = ExpressionObj e)"
      and kd: "kindOf m = kindOf m0
          \<or> (\<exists>v e. (''__proto__'', v, Inr True) \<in> set gs \<and> newExpression E h v d = Inr e
                 \<and> kindOf m = Inheriting e)"
      by blast+
    have sub: "set gs \<subseteq> set (g # gs)" by auto
    from np vals kd sub show ?thesis by blast
  next
    case True
    with Cons.prems(1) g gd obtain e m1 where e: "newExpression E h v d = Inr e"
      and a: "assignMeta E k e m0 = Inr m1" and rest: "wrapMeta E h d gs m1 = Inr m"
      by (auto split: sum.splits)
    note am = assignMeta_result[OF a Cons.prems(2)]
    from Cons.IH[OF rest am(1)] have
      np: "''__proto__'' \<notin> fst ` set (props m)"
      and vals: "\<And>k' x. (k', x) \<in> set (props m) \<Longrightarrow> (k', x) \<in> set (props m1)
           \<or> (\<exists>v e. (k', v, Inr True) \<in> set gs \<and> newExpression E h v d = Inr e
                  \<and> x = ExpressionObj e)"
      and kd: "kindOf m = kindOf m1
          \<or> (\<exists>v e. (''__proto__'', v, Inr True) \<in> set gs \<and> newExpression E h v d = Inr e
                 \<and> kindOf m = Inheriting e)"
      by auto
    have vs: "(k', x) \<in> set (props m0)
           \<or> (\<exists>v e. (k', v, Inr True) \<in> set (g # gs) \<and> newExpression E h v d = Inr e
                  \<and> x = ExpressionObj e)"
      if mem: "(k', x) \<in> set (props m)" for k' x
    proof -
      from vals[OF mem] show ?thesis
      proof
        assume p: "(k', x) \<in> set (props m1)"
        show ?thesis
        proof (cases "(k', x) \<in> set (props m0)")
          case True
          then show ?thesis by simp
        next
          case False
          with p am(2) have "k' = k" "x = ExpressionObj e" by auto
          with e g gd \<open>own\<close> show ?thesis by auto
        qed
      next
        assume "\<exists>v e. (k', v, Inr True) \<in> set gs \<and> newExpression E h v d = Inr e
                  \<and> x = ExpressionObj e"
        then show ?thesis by auto
      qed
    qed
    have ks: "kindOf m = kindOf m0
          \<or> (\<exists>v e. (''__proto__'', v, Inr True) \<in> set (g # gs) \<and> newExpression E h v d = Inr e
                 \<and> kindOf m = Inheriting e)"
    proof (cases "\<exists>v e. (''__proto__'', v, Inr True) \<in> set gs \<and> newExpression E h v d = Inr e
                 \<and> kindOf m = Inheriting e")
      case True
      then show ?thesis by auto
    next
      case False
      with kd have eq: "kindOf m = kindOf m1" by blast
      from am(3) show ?thesis
      proof
        assume "kindOf m1 = kindOf m0"
        with eq show ?thesis by simp
      next
        assume "k = ''__proto__'' \<and> kindOf m1 = Inheriting e"
        with eq e g gd \<open>own\<close> show ?thesis by auto
      qed
    qed
    from np vs ks show ?thesis by blast
  qed
qed

lemma wrapMeta_complete:
  assumes "wrapMeta E h d gs m0 = Inr m"
  shows "(\<forall>k v gd. (k, v, gd) \<in> set gs \<longrightarrow> (\<exists>own. gd = Inr own))
     \<and> (\<forall>k v. (k, v, Inr True) \<in> set gs \<longrightarrow> (\<exists>e. newExpression E h v d = Inr e))"
  using assms
proof (induction gs arbitrary: m0)
  case Nil
  then show ?case by simp
next
  case (Cons g gs)
  obtain k v gd where g: "g = (k, v, gd)" by (cases g)
  from Cons.prems g obtain own where gd: "gd = Inr own" by (cases gd) auto
  show ?case
  proof (cases own)
    case False
    with Cons.prems g gd have "wrapMeta E h d gs m0 = Inr m" by simp
    from Cons.IH[OF this] g gd False show ?thesis by auto
  next
    case True
    with Cons.prems g gd obtain e m1 where e: "newExpression E h v d = Inr e"
      and rest: "wrapMeta E h d gs m1 = Inr m"
      by (auto split: sum.splits)
    from Cons.IH[OF rest] g gd e show ?thesis by auto
  qed
qed

lemma wrapMeta_keys:
  assumes "wrapMeta E h d gs m0 = Inr m"
    and "\<forall>k v gd. (k, v, gd) \<in> set gs \<longrightarrow> gd = Inr True \<and> k \<noteq> ''__proto__''"
    and "kindOf m0 = PlainObject"
  shows "kindOf m = PlainObject
     \<and> fst ` set (props m) = fst ` set (props m0) \<union> fst ` set gs"
  using assms
proof (induction gs arbitrary: m0)
  case Nil
  then show ?case by simp
next
  case (Cons g gs)
  obtain k v gd where g: "g = (k, v, gd)" by (cases g)
  with Cons.prems(2) have gd: "gd = Inr True" and k: "k \<noteq> ''__proto__''" by auto
  with Cons.prems(1) g obtain e m1 where a: "assignMeta E k e m0 = Inr m1"
    and rest: "wrapMeta E h d gs m1 = Inr m"
    by (auto split: sum.splits)
  note ap = assignMeta_plain[OF a k Cons.prems(3)]
  from Cons.prems(2) have "\<forall>k v gd. (k, v, gd) \<in> set gs \<longrightarrow> gd = Inr True \<and> k \<noteq> ''__proto__''"
    by auto
  from Cons.IH[OF rest this ap(1)] ap(2) g show ?case by auto
qed

lemma guardedForIn_plain:
  assumes "\<not> hostObject h x"
  shows "guardedForIn E h x = map (\<lambda>(name, v). (name, v, guard E h x name)) (ownEnumerable h x)"
  using assms by (simp add: guardedForIn_def)

lemma guard_builtin:
  "map_of (ownEnumerable h x) ''hasOwnProperty'' = None \<Longrightarrow> guard E h x name = Inr True"
  by (simp add: guard_def)

lemma guard_not_callable:
  assumes "map_of (ownEnumerable h x) ''hasOwnProperty'' = Some m" and "\<forall>f. m \<noteq> Function f"
  shows "\<exists>err. guard E h x name = Inl err"
  using assms by (cases m) (simp_all add: guard_def)

lemma ownEnumerable_defaultValue:
  "defined m \<Longrightarrow> ownEnumerable h (defaultValue m EMPTY_OBJECT) = ownEnumerable h m"
  by (simp add: defaultValue_def)

lemma ownEnumerable_not_defined: "\<not> defined m \<Longrightarrow> ownEnumerable h m = []"
  by (cases m) simp_all

lemma hostObject_not_defined: "\<not> defined m \<Longrightarrow> \<not> hostObject h m"
  by (cases m) (simp_all add: hostObject_def)

lemma assignMeta_proto:
  assumes "assignMeta E ''__proto__'' e m = Inr m'" and "''__proto__'' \<notin> fst ` set (props m)"
  shows "kindOf m' = Inheriting e"
proof -
  obtain k ps where m: "m = HObj k ps" by (cases m)
  have nomap: "map_of ps ''__proto__'' = None"
    using assms(2) m by (simp add: map_of_eq_None_iff)
  from assignMeta_cases[OF assms(1)[unfolded m]] nomap show ?thesis by auto
qed

lemma wrapMeta_proto:
  assumes "wrapMeta E h d gs m0 = Inr m"
    and "\<forall>k v gd. (k, v, gd) \<in> set gs \<longrightarrow> gd = Inr True"
    and "''__proto__'' \<notin> fst ` set (props m0)"
    and "(\<exists>e. kindOf m0 = Inheriting e) \<or> ''__proto__'' \<in> fst ` set gs"
  shows "\<exists>e. kindOf m = Inheriting e"
  using assms
proof (induction gs arbitrary: m0)
  case Nil
  then show ?case by simp
next
  case (Cons g gs)
  obtain k v gd where g: "g = (k, v, gd)" by (cases g)
  with Cons.prems(2) have gd: "gd = Inr True" by auto
  with Cons.prems(1) g obtain e m1 where a: "assignMeta E k e m0 = Inr m1"
    and rest: "wrapMeta E h d gs m1 = Inr m"
    by (auto split: sum.splits)
  note am = assignMeta_result[OF a Cons.prems(3)]
  from Cons.prems(2) have all: "\<forall>k v gd. (k, v, gd) \<in> set gs \<longrightarrow> gd = Inr True" by auto
  have "(\<exists>e. kindOf m1 = Inheriting e) \<or> ''__proto__'' \<in> fst ` set gs"
  proof (cases "\<exists>e. kindOf m0 = Inheriting e")
    case True
    with am(3) show ?thesis by auto
  next
    case False
    with Cons.prems(4) have "''__proto__'' \<in> fst ` set (g # gs)" by blast
    then have "k = ''__proto__'' \<or> ''__proto__'' \<in> fst ` set gs" using g by auto
    then show ?thesis
    proof
      assume "k = ''__proto__''"
      with a assignMeta_proto[OF _ Cons.prems(3)] show ?thesis by blast
    next
      assume "''__proto__'' \<in> fst ` set gs"
      then show ?thesis by simp
    qed
  qed
  from Cons.IH[OF rest all am(1) this] show ?case .
qed

text \<open>What the loop over the document's \<^verbatim>\<open>meta\<close> leaves in the local object when it
  completes, for a \<^verbatim>\<open>meta\<close> that the store describes.\<close>

lemma metaLoop_result:
  assumes w: "(if defined m
               then wrapMeta E h d (guardedForIn E h (defaultValue m EMPTY_OBJECT))
                      (HObj PlainObject [])
               else Inr (HObj PlainObject [])) = Inr metaObj"
    and nh: "\<not> hostObject h m"
  shows "\<forall>f0. map_of (ownEnumerable h m) ''hasOwnProperty'' = Some f0 \<longrightarrow> (\<exists>f. f0 = Function f)"
    and "\<forall>k x. (k, x) \<in> set (props metaObj) \<longrightarrow>
            k \<noteq> ''__proto__''
            \<and> (\<exists>v e. (k, v) \<in> set (ownEnumerable h m) \<and> newExpression E h v d = Inr e
                   \<and> x = ExpressionObj e)"
    and "kindOf metaObj = PlainObject
         \<or> (\<exists>v e. (''__proto__'', v) \<in> set (ownEnumerable h m) \<and> newExpression E h v d = Inr e
                \<and> kindOf metaObj = Inheriting e)"
    and "map_of (ownEnumerable h m) ''hasOwnProperty'' = None \<longrightarrow>
           (\<forall>k v. (k, v) \<in> set (ownEnumerable h m) \<longrightarrow> (\<exists>e. newExpression E h v d = Inr e))
           \<and> (map_of (ownEnumerable h m) ''__proto__'' = None \<longrightarrow>
                 kindOf metaObj = PlainObject
                 \<and> fst ` set (props metaObj) = fst ` set (ownEnumerable h m))
           \<and> (map_of (ownEnumerable h m) ''__proto__'' \<noteq> None \<longrightarrow>
                 (\<exists>e. kindOf metaObj = Inheriting e))"
proof -
  let ?es = "ownEnumerable h m"
  define gs where "gs = map (\<lambda>(name, v). (name, v, guard E h m name)) ?es"
  let ?m0 = "HObj PlainObject []"
  have wm: "wrapMeta E h d gs ?m0 = Inr metaObj"
  proof (cases "defined m")
    case True
    with w nh show ?thesis by (simp add: defaultValue_def guardedForIn_def gs_def)
  next
    case False
    with w show ?thesis by (simp add: ownEnumerable_not_defined gs_def)
  qed
  have m0: "''__proto__'' \<notin> fst ` set (props ?m0)" by simp
  have memI: "(k, v, guard E h m k) \<in> set gs" if "(k, v) \<in> set ?es" for k v
    using that by (force simp: gs_def)
  have memD: "(k, v) \<in> set ?es \<and> gd = guard E h m k" if "(k, v, gd) \<in> set gs" for k v gd
    using that by (auto simp: gs_def)
  have keys: "fst ` set gs = fst ` set ?es" by (force simp: gs_def)
  note sound = wrapMeta_sound[OF wm m0]
  note cmp = wrapMeta_complete[OF wm]
  show "\<forall>f0. map_of ?es ''hasOwnProperty'' = Some f0 \<longrightarrow> (\<exists>f. f0 = Function f)"
  proof (intro allI impI)
    fix f0
    assume s: "map_of ?es ''hasOwnProperty'' = Some f0"
    then have "(''hasOwnProperty'', f0) \<in> set ?es" by (rule map_of_SomeD)
    then have "(''hasOwnProperty'', f0, guard E h m ''hasOwnProperty'') \<in> set gs"
      by (rule memI)
    with cmp obtain own where own: "guard E h m ''hasOwnProperty'' = Inr own" by blast
    show "\<exists>f. f0 = Function f"
    proof (rule ccontr)
      assume "\<not> (\<exists>f. f0 = Function f)"
      then have "\<forall>f. f0 \<noteq> Function f" by simp
      from guard_not_callable[OF s this, of E "''hasOwnProperty''"] own show False by auto
    qed
  qed
  show "\<forall>k x. (k, x) \<in> set (props metaObj) \<longrightarrow>
            k \<noteq> ''__proto__''
            \<and> (\<exists>v e. (k, v) \<in> set ?es \<and> newExpression E h v d = Inr e \<and> x = ExpressionObj e)"
  proof (intro allI impI)
    fix k x
    assume kx: "(k, x) \<in> set (props metaObj)"
    from sound have np: "''__proto__'' \<notin> fst ` set (props metaObj)" by (rule conjunct1)
    from sound have "\<forall>k x. (k, x) \<in> set (props metaObj) \<longrightarrow> (k, x) \<in> set (props ?m0)
           \<or> (\<exists>v e. (k, v, Inr True) \<in> set gs \<and> newExpression E h v d = Inr e
                  \<and> x = ExpressionObj e)" by (rule conjunct1[OF conjunct2])
    with kx have vals: "(k, x) \<in> set (props ?m0)
           \<or> (\<exists>v e. (k, v, Inr True) \<in> set gs \<and> newExpression E h v d = Inr e
                  \<and> x = ExpressionObj e)" by blast
    have ne: "(k, x) \<notin> set (props ?m0)" by simp
    have "k \<noteq> ''__proto__''"
    proof
      assume "k = ''__proto__''"
      with kx have "''__proto__'' \<in> fst ` set (props metaObj)" by force
      with np show False by simp
    qed
    moreover from vals ne obtain v e where t: "(k, v, Inr True) \<in> set gs"
      and "newExpression E h v d = Inr e" and "x = ExpressionObj e" by blast
    moreover from memD[OF t] have "(k, v) \<in> set ?es" by simp
    ultimately show "k \<noteq> ''__proto__''
            \<and> (\<exists>v e. (k, v) \<in> set ?es \<and> newExpression E h v d = Inr e \<and> x = ExpressionObj e)"
      by blast
  qed
  have "kindOf metaObj = PlainObject
      \<or> (\<exists>v e. (''__proto__'', v, Inr True) \<in> set gs \<and> newExpression E h v d = Inr e
             \<and> kindOf metaObj = Inheriting e)"
    using sound[THEN conjunct2, THEN conjunct2] by simp
  then show "kindOf metaObj = PlainObject
         \<or> (\<exists>v e. (''__proto__'', v) \<in> set ?es \<and> newExpression E h v d = Inr e
                \<and> kindOf metaObj = Inheriting e)"
  proof
    assume "kindOf metaObj = PlainObject"
    then show ?thesis by simp
  next
    assume "\<exists>v e. (''__proto__'', v, Inr True) \<in> set gs \<and> newExpression E h v d = Inr e
             \<and> kindOf metaObj = Inheriting e"
    then obtain v e where t: "(''__proto__'', v, Inr True) \<in> set gs"
      and e: "newExpression E h v d = Inr e" "kindOf metaObj = Inheriting e" by blast
    from memD[OF t] have "(''__proto__'', v) \<in> set ?es" by simp
    with e show ?thesis by blast
  qed
  show "map_of ?es ''hasOwnProperty'' = None \<longrightarrow>
           (\<forall>k v. (k, v) \<in> set ?es \<longrightarrow> (\<exists>e. newExpression E h v d = Inr e))
           \<and> (map_of ?es ''__proto__'' = None \<longrightarrow>
                 kindOf metaObj = PlainObject \<and> fst ` set (props metaObj) = fst ` set ?es)
           \<and> (map_of ?es ''__proto__'' \<noteq> None \<longrightarrow>
                 (\<exists>e. kindOf metaObj = Inheriting e))"
  proof
    assume b: "map_of ?es ''hasOwnProperty'' = None"
    then have g: "guard E h m name = Inr True" for name by (rule guard_builtin)
    have all: "\<forall>k v gd. (k, v, gd) \<in> set gs \<longrightarrow> gd = Inr True"
    proof (intro allI impI)
      fix k v gd
      assume "(k, v, gd) \<in> set gs"
      from memD[OF this] g[of k] show "gd = Inr True" by simp
    qed
    have c1: "\<forall>k v. (k, v) \<in> set ?es \<longrightarrow> (\<exists>e. newExpression E h v d = Inr e)"
    proof (intro allI impI)
      fix k v
      assume "(k, v) \<in> set ?es"
      from memI[OF this] g[of k] have "(k, v, Inr True) \<in> set gs" by simp
      with cmp show "\<exists>e. newExpression E h v d = Inr e" by blast
    qed
    have c2: "kindOf metaObj = PlainObject \<and> fst ` set (props metaObj) = fst ` set ?es"
      if np: "map_of ?es ''__proto__'' = None"
    proof -
      from np have ne: "''__proto__'' \<notin> fst ` set ?es" by (simp add: map_of_eq_None_iff)
      have "\<forall>k v gd. (k, v, gd) \<in> set gs \<longrightarrow> gd = Inr True \<and> k \<noteq> ''__proto__''"
      proof (intro allI impI)
        fix k v gd
        assume t: "(k, v, gd) \<in> set gs"
        from memD[OF t] have "(k, v) \<in> set ?es" by simp
        then have "k \<in> fst ` set ?es" by force
        with ne have "k \<noteq> ''__proto__''" by blast
        with all t show "gd = Inr True \<and> k \<noteq> ''__proto__''" by blast
      qed
      from wrapMeta_keys[OF wm this] keys show ?thesis by simp
    qed
    have c3: "\<exists>e. kindOf metaObj = Inheriting e" if p: "map_of ?es ''__proto__'' \<noteq> None"
    proof -
      from p have "''__proto__'' \<in> fst ` set ?es" by (simp add: map_of_eq_None_iff)
      with keys have "''__proto__'' \<in> fst ` set gs" by simp
      then have "(\<exists>e. kindOf ?m0 = Inheriting e) \<or> ''__proto__'' \<in> fst ` set gs" by simp
      from wrapMeta_proto[OF wm all m0 this] show ?thesis .
    qed
    from c1 c2 c3
    show "(\<forall>k v. (k, v) \<in> set ?es \<longrightarrow> (\<exists>e. newExpression E h v d = Inr e))
           \<and> (map_of ?es ''__proto__'' = None \<longrightarrow>
                 kindOf metaObj = PlainObject \<and> fst ` set (props metaObj) = fst ` set ?es)
           \<and> (map_of ?es ''__proto__'' \<noteq> None \<longrightarrow>
                 (\<exists>e. kindOf metaObj = Inheriting e))"
      by blast
  qed
qed

lemma run_stays_unready:
  assumes "\<not> u_ready (tileStyle w)" and "\<forall>x\<in>set xs. \<forall>j. x \<noteq> LoadResolves j"
  shows "\<not> u_ready (tileStyle (run E xs w))"
  using assms
proof (induction xs arbitrary: w)
  case Nil
  then show ?case by simp
next
  case (Cons x xs)
  from Cons.prems have "\<not> u_ready (tileStyle (snd (step E x w)))" by (auto simp: step_ready)
  from Cons.IH[OF this] Cons.prems(2) show ?case by simp
qed

section \<open>The clone of a document\<close>

lemma leafOf_objectAt: "leafOf v = Some t \<Longrightarrow> objectAt H v = None"
  by (cases v) simp_all

lemma objectAt_append: "objectAt h v = Some obj \<Longrightarrow> objectAt (h @ ys) v = Some obj"
  by (cases v) (auto simp: nth_append split: if_splits)

lemma reify_Suc_Some:
  assumes "objectAt h v = Some obj"
  shows "(reify (Suc d) h v = Some t) =
     ((\<forall>e. kindOf obj \<noteq> Inheriting e)
      \<and> (\<exists>ts. reifyProps (reify d) h (props obj) = Some ts \<and> t = Node (kindOf obj) ts))"
  using assms by (cases "kindOf obj") (auto split: option.splits)

lemma reifyProps_mono:
  assumes "\<And>v t. reify d h v = Some t \<Longrightarrow> reify d (h @ ys) v = Some t"
    and "reifyProps (reify d) h ps = Some ts"
  shows "reifyProps (reify d) (h @ ys) ps = Some ts"
  using assms(2)
proof (induction ps arbitrary: ts)
  case Nil
  then show ?case by simp
next
  case (Cons kv ps)
  obtain k v where kv: "kv = (k, v)" by (cases kv)
  with Cons.prems obtain t ts0 where t: "reify d h v = Some t"
    and r: "reifyProps (reify d) h ps = Some ts0" and ts: "ts = (k, t) # ts0"
    by (auto split: option.splits)
  from assms(1)[OF t] Cons.IH[OF r] kv ts show ?case by simp
qed

lemma reify_append: "reify d h v = Some t \<Longrightarrow> reify d (h @ ys) v = Some t"
proof (induction d arbitrary: v t)
  case 0
  then show ?case by (auto split: option.splits dest: leafOf_objectAt)
next
  case (Suc d)
  show ?case
  proof (cases "objectAt h v")
    case None
    with Suc.prems have "leafOf v = Some t" by simp
    with leafOf_objectAt[OF this, of "h @ ys"] show ?thesis by simp
  next
    case (Some obj)
    from Suc.prems reify_Suc_Some[OF Some, of d t]
    obtain ts where nk: "\<forall>e. kindOf obj \<noteq> Inheriting e"
      and r: "reifyProps (reify d) h (props obj) = Some ts"
      and t: "t = Node (kindOf obj) ts" by blast
    from reifyProps_mono[of d h ys, OF Suc.IH r]
    have "reifyProps (reify d) (h @ ys) (props obj) = Some ts" .
    with nk t reify_Suc_Some[OF objectAt_append[OF Some, of ys], of d t]
    show ?thesis by blast
  qed
qed

lemma agreesFrom_shrink:
  "agreesFrom lo (h1 @ ys) H \<Longrightarrow> lo \<le> lo' \<Longrightarrow> agreesFrom lo' (h1 @ ys) H"
  by (auto simp: agreesFrom_def)

lemma agreesFrom_prefix:
  "agreesFrom lo (h1 @ ys) H \<Longrightarrow> agreesFrom lo h1 H"
  by (auto simp: agreesFrom_def nth_append)

lemma cloneProps_correct:
  assumes IH: "\<And>(h :: ('n, 'e) heap) v t. reify d h v = Some t \<Longrightarrow>
      \<exists>c ys. clone d h v = (Inr c, h @ ys)
            \<and> (\<forall>H. agreesFrom (length h) (h @ ys) H \<longrightarrow> reify d H c = Some t)"
    and "reifyProps (reify d) (h :: ('n, 'e) heap) ps = Some ts"
  shows "\<exists>ps' ys. cloneProps (clone d) h ps = (Inr ps', h @ ys)
            \<and> (\<forall>H. agreesFrom (length h) (h @ ys) H \<longrightarrow> reifyProps (reify d) H ps' = Some ts)"
  using assms(2)
proof (induction ps arbitrary: h ts)
  case Nil
  then have "cloneProps (clone d) h [] = (Inr [], h @ [])
      \<and> (\<forall>H. agreesFrom (length h) (h @ []) H \<longrightarrow> reifyProps (reify d) H [] = Some ts)"
    by simp
  then show ?case by blast
next
  case (Cons kv ps)
  obtain k v where kv: "kv = (k, v)" by (cases kv)
  with Cons.prems obtain t ts0 where t: "reify d h v = Some t"
    and r: "reifyProps (reify d) h ps = Some ts0" and ts: "ts = (k, t) # ts0"
    by (auto split: option.splits)
  from IH[OF t] obtain c ys where c: "clone d h v = (Inr c, h @ ys)"
    and cs: "\<And>H. agreesFrom (length h) (h @ ys) H \<Longrightarrow> reify d H c = Some t" by blast
  have r1: "reifyProps (reify d) (h @ ys) ps = Some ts0"
    by (rule reifyProps_mono[OF reify_append r])
  from Cons.IH[OF r1] obtain ps' zs where
    p: "cloneProps (clone d) (h @ ys) ps = (Inr ps', (h @ ys) @ zs)"
    and pstab: "\<And>H. agreesFrom (length (h @ ys)) ((h @ ys) @ zs) H
               \<Longrightarrow> reifyProps (reify d) H ps' = Some ts0" by blast
  have res: "cloneProps (clone d) h (kv # ps) = (Inr ((k, c) # ps'), h @ (ys @ zs))"
    using kv c p by simp
  have stab: "reifyProps (reify d) H ((k, c) # ps') = Some ts"
    if a: "agreesFrom (length h) (h @ (ys @ zs)) H" for H
  proof -
    from a have "agreesFrom (length h) ((h @ ys) @ zs) H" by simp
    then have a1: "agreesFrom (length h) (h @ ys) H" by (rule agreesFrom_prefix)
    from a have a2: "agreesFrom (length (h @ ys)) ((h @ ys) @ zs) H"
      by (auto simp: agreesFrom_def)
    from cs[OF a1] pstab[OF a2] ts show ?thesis by simp
  qed
  from res stab show ?case by blast
qed

lemma clone_correct:
  "reify d h v = Some t \<Longrightarrow>
     \<exists>c ys. clone d h v = (Inr c, h @ ys)
          \<and> (\<forall>H. agreesFrom (length h) (h @ ys) H \<longrightarrow> reify d H c = Some t)"
proof (induction d arbitrary: h v t)
  case 0
  then have gd: "objectAt h v = None" and l: "leafOf v = Some t"
    by (auto split: option.splits)
  then have "clone 0 h v = (Inr v, h @ [])" by simp
  moreover have "reify 0 H v = Some t" for H
    using l leafOf_objectAt[OF l, of H] by simp
  ultimately show ?case by blast
next
  case (Suc d)
  show ?case
  proof (cases "objectAt h v")
    case None
    with Suc.prems have l: "leafOf v = Some t" by simp
    from None have "clone (Suc d) h v = (Inr v, h @ [])" by simp
    moreover have "reify (Suc d) H v = Some t" for H
      using l leafOf_objectAt[OF l, of H] by simp
    ultimately show ?thesis by blast
  next
    case (Some obj)
    from Suc.prems reify_Suc_Some[OF Some, of d t]
    obtain ts where nk: "\<forall>e. kindOf obj \<noteq> Inheriting e"
      and r: "reifyProps (reify d) h (props obj) = Some ts"
      and t: "t = Node (kindOf obj) ts" by blast
    from cloneProps_correct[of d h "props obj" ts, OF Suc.IH r] obtain ps' ys where
      p: "cloneProps (clone d) h (props obj) = (Inr ps', h @ ys)"
      and pstab: "\<And>H. agreesFrom (length h) (h @ ys) H
                 \<Longrightarrow> reifyProps (reify d) H ps' = Some ts" by blast
    let ?new = "HObj (kindOf obj) ps'"
    have res: "clone (Suc d) h v = (Inr (Ref (length (h @ ys))), h @ (ys @ [?new]))"
      using Some p by simp
    have stab: "reify (Suc d) H (Ref (length (h @ ys))) = Some t"
      if a: "agreesFrom (length h) (h @ (ys @ [?new])) H" for H
    proof -
      from a have lt: "length (h @ ys) < length H" by (simp add: agreesFrom_def)
      from a have "H ! (length (h @ ys)) = (h @ (ys @ [?new])) ! (length (h @ ys))"
        by (simp add: agreesFrom_def)
      then have at: "H ! (length (h @ ys)) = ?new"
        by (simp add: nth_append)
      from a have "agreesFrom (length h) ((h @ ys) @ [?new]) H" by simp
      then have a1: "agreesFrom (length h) (h @ ys) H" by (rule agreesFrom_prefix)
      from lt at have gd: "objectAt H (Ref (length (h @ ys))) = Some ?new" by simp
      from pstab[OF a1] nk t reify_Suc_Some[OF gd, of d t] show ?thesis by simp
    qed
    from res stab show ?thesis by blast
  qed
qed

lemma setupStyle_clone:
  assumes "setupStyle E h s j = (Inr (), h', s')"
  shows "\<exists>c h1 meta. clone (stackDepth E) h j = (Inr c, h1) \<and> u_style s' = c
           \<and> h' = h1 @ [meta]"
  using assms
  by (auto simp: setupStyle_def Let_def split: prod.splits sum.splits if_splits
      dest!: assignAll_frame)

lemma step_style_settled:
  assumes "u_readyPromise (tileStyle w) \<noteq> Pending"
  shows "u_style (tileStyle (snd (step E x w))) = u_style (tileStyle w)"
proof (cases x)
  case (Set p v)
  then show ?thesis by (auto split: sum.splits dest: set_property_frame(2))
next
  case (Call acc fn ap)
  then show ?thesis by (auto split: prod.splits dest: accessor_frame(2))
qed (use assms in \<open>auto simp: loadRejected_def\<close>)

lemma step_store_settled:
  assumes "u_readyPromise (tileStyle w) \<noteq> Pending"
    and "agreesFrom lo h1 (store w)"
    and "\<forall>a obj. x = Mutate a obj \<longrightarrow> a < lo"
  shows "agreesFrom lo h1 (store (snd (step E x w)))"
proof (cases x)
  case (Set p v)
  with assms(2) show ?thesis by (auto split: sum.splits)
next
  case (Call acc fn ap)
  with assms(2) show ?thesis by (auto split: prod.splits)
next
  case (Mutate a obj)
  with assms(3) have "a < lo" by simp
  with Mutate assms(2) show ?thesis by (auto simp: agreesFrom_def)
next
  case (Allocate obj)
  with assms(2) show ?thesis by (auto simp: agreesFrom_def nth_append)
qed (use assms(1,2) in \<open>auto simp: loadRejected_def\<close>)

lemma run_keeps_raw_style:
  assumes "u_readyPromise (tileStyle w) \<noteq> Pending"
    and "agreesFrom lo h1 (store w)"
    and "\<forall>x\<in>set xs. \<forall>a obj. x = Mutate a obj \<longrightarrow> a < lo"
  shows "u_style (tileStyle (run E xs w)) = u_style (tileStyle w)
     \<and> agreesFrom lo h1 (store (run E xs w))"
  using assms
proof (induction xs arbitrary: w)
  case Nil
  then show ?case by simp
next
  case (Cons x xs)
  let ?w = "snd (step E x w)"
  from Cons.prems(3) have m: "\<forall>a obj. x = Mutate a obj \<longrightarrow> a < lo" by simp
  have p: "u_readyPromise (tileStyle ?w) \<noteq> Pending"
    using Cons.prems(1) by (simp add: step_promise)
  have a: "agreesFrom lo h1 (store ?w)"
    by (rule step_store_settled[OF Cons.prems(1,2) m])
  have s: "u_style (tileStyle ?w) = u_style (tileStyle w)"
    by (rule step_style_settled[OF Cons.prems(1)])
  from Cons.IH[OF p a] Cons.prems(3) s show ?case by simp
qed

section \<open>Readiness\<close>

text \<open>
  Claim C5, as amended. When the constructor is given a document rather than a url, no
  load is pending when it returns: the ready promise is fulfilled if \<^verbatim>\<open>setup\<close> completed on
  the document, and rejected with the error that \<^verbatim>\<open>setup\<close> threw otherwise; \<^verbatim>\<open>ready\<close> is true
  exactly in the first case. When it is given a url, \<^verbatim>\<open>ready\<close> is false and the load is
  pending when it returns, and \<^verbatim>\<open>ready\<close> stays false under all operations as long as the
  load has not resolved.
\<close>

theorem construct_readiness:
  "(typeof style \<noteq> ''string'' \<longrightarrow>
      u_readyPromise (tileStyle (construct E h ss style))
        = (case fst (setupStyle E h initialStyle style) of
             Inl err \<Rightarrow> Rejected err
           | Inr u \<Rightarrow> Fulfilled)
      \<and> u_readyPromise (tileStyle (construct E h ss style)) \<noteq> Pending
      \<and> get_ready (tileStyle (construct E h ss style))
          = (fst (setupStyle E h initialStyle style) = Inr ()))
   \<and> (typeof url = ''string'' \<and> (\<forall>x\<in>set xs. \<forall>j. x \<noteq> LoadResolves j) \<longrightarrow>
      \<not> get_ready (tileStyle (construct E h ss url))
      \<and> u_readyPromise (tileStyle (construct E h ss url)) = Pending
      \<and> \<not> get_ready (tileStyle (run E xs (construct E h ss url))))"
proof (intro conjI impI)
  assume a: "typeof style \<noteq> ''string''"
  obtain r h1 s1 where s: "setupStyle E h initialStyle style = (r, h1, s1)"
    by (cases "setupStyle E h initialStyle style") auto
  from a s show p: "u_readyPromise (tileStyle (construct E h ss style))
        = (case fst (setupStyle E h initialStyle style) of
             Inl err \<Rightarrow> Rejected err
           | Inr u \<Rightarrow> Fulfilled)"
    by (cases r) (simp_all add: construct_def loadResolved_def)
  then show "u_readyPromise (tileStyle (construct E h ss style)) \<noteq> Pending"
    by (simp split: sum.splits)
  from a show "get_ready (tileStyle (construct E h ss style))
          = (fst (setupStyle E h initialStyle style) = Inr ())"
    by (auto simp: construct_def get_ready_def loadResolved_ready initialStyle_def
        split: sum.splits)
next
  assume a: "typeof url = ''string'' \<and> (\<forall>x\<in>set xs. \<forall>j. x \<noteq> LoadResolves j)"
  then have c: "construct E h ss url = \<lparr>store = h, tileStyle = initialStyle, shaderState = ss\<rparr>"
    by (simp add: construct_def)
  then show n: "\<not> get_ready (tileStyle (construct E h ss url))"
    and "u_readyPromise (tileStyle (construct E h ss url)) = Pending"
    by (simp_all add: get_ready_def initialStyle_def)
  from n have "\<not> u_ready (tileStyle (construct E h ss url))" by (simp add: get_ready_def)
  from run_stays_unready[OF this, of xs E] a
  show "\<not> get_ready (tileStyle (run E xs (construct E h ss url)))"
    by (simp add: get_ready_def)
qed

text \<open>
  The sample document makes the style ready and fulfils the promise. The document whose
  \<^verbatim>\<open>meta\<close> has an entry \<^verbatim>\<open>hasOwnProperty\<close> that is a string leaves the style unready, the
  promise rejected with the type error of the guard. The style constructed from a url is
  not ready, and is still not ready after an assignment and the rejection of its load.
\<close>

theorem construct_readiness_witness:
  "typeof (Ref 0 :: (int, string) val) \<noteq> ''string''
   \<and> fst (setupStyle sampleEnv sampleStore initialStyle (Ref 0)) = Inr ()
   \<and> get_ready (tileStyle (construct sampleEnv sampleStore [] (Ref 0)))
   \<and> u_readyPromise (tileStyle (construct sampleEnv sampleStore [] (Ref 0))) = Fulfilled
   \<and> fst (setupStyle sampleEnv guardKeyStore initialStyle (Ref 0))
       = Inl (TypeError ''metaJson.hasOwnProperty is not a function'')
   \<and> \<not> get_ready (tileStyle (construct sampleEnv guardKeyStore [] (Ref 0)))
   \<and> u_readyPromise (tileStyle (construct sampleEnv guardKeyStore [] (Ref 0)))
       = Rejected (TypeError ''metaJson.hasOwnProperty is not a function'')
   \<and> typeof (Str ''style.json'' :: (int, string) val) = ''string''
   \<and> \<not> get_ready (tileStyle (construct sampleEnv sampleStore [] (Str ''style.json'')))
   \<and> u_readyPromise (tileStyle (construct sampleEnv sampleStore [] (Str ''style.json'')))
       = Pending
   \<and> \<not> get_ready (tileStyle (run sampleEnv
           [Set Show (Bool True), LoadRejects (RequestError ''404''), Get Show]
           (construct sampleEnv sampleStore [] (Str ''style.json''))))"
proof -
  let ?xs = "[Set Show (Bool True), LoadRejects (RequestError ''404''), Get Show]
             :: (int, string) op list"
  have h1: "typeof (Ref 0 :: (int, string) val) \<noteq> ''string''" by simp
  have h2: "fst (setupStyle sampleEnv sampleStore initialStyle (Ref 0)) = Inr ()" by code_simp
  have h3: "typeof (Str ''style.json'' :: (int, string) val) = ''string''" by simp
  have h4: "\<forall>x\<in>set ?xs. \<forall>j. x \<noteq> LoadResolves j" by simp
  have h5: "fst (setupStyle sampleEnv guardKeyStore initialStyle (Ref 0))
       = Inl (TypeError ''metaJson.hasOwnProperty is not a function'')" by code_simp
  from construct_readiness[of "Ref 0" sampleEnv sampleStore "[]" "Str ''style.json''" ?xs]
    h1 h2 h3 h4
  have a: "get_ready (tileStyle (construct sampleEnv sampleStore [] (Ref 0)))
     \<and> u_readyPromise (tileStyle (construct sampleEnv sampleStore [] (Ref 0))) = Fulfilled
     \<and> \<not> get_ready (tileStyle (construct sampleEnv sampleStore [] (Str ''style.json'')))
     \<and> u_readyPromise (tileStyle (construct sampleEnv sampleStore [] (Str ''style.json'')))
         = Pending
     \<and> \<not> get_ready (tileStyle (run sampleEnv ?xs
             (construct sampleEnv sampleStore [] (Str ''style.json''))))"
    by simp
  from construct_readiness[of "Ref 0" sampleEnv guardKeyStore "[]" "Str ''style.json''" ?xs]
    h1 h5
  have b: "\<not> get_ready (tileStyle (construct sampleEnv guardKeyStore [] (Ref 0)))
     \<and> u_readyPromise (tileStyle (construct sampleEnv guardKeyStore [] (Ref 0)))
         = Rejected (TypeError ''metaJson.hasOwnProperty is not a function'')"
    by simp
  from h1 h2 h3 h5 a b show ?thesis by blast
qed

text \<open>
  Claim C5 as stated fails: constructed from an inline document whose \<^verbatim>\<open>show\<close> expression
  is malformed, the style is not ready when the constructor returns, and never will be:
  \<^verbatim>\<open>setup\<close> threw and the ready promise is rejected.
\<close>

theorem inline_document_not_ready:
  "typeof (Ref 0 :: (int, string) val) \<noteq> ''string''
   \<and> \<not> get_ready (tileStyle (construct sampleEnv malformedStore [] (Ref 0)))
   \<and> get_readyPromise (tileStyle (construct sampleEnv malformedStore [] (Ref 0)))
       = Rejected (RuntimeError ''Unexpected end of expression'')"
  by code_simp

text \<open>
  Claim C7. Readiness settles at most once and is monotone: no sequence of operations makes
  a ready style unready; an operation makes an unready style ready only if it is the
  resolution of the pending load and \<^verbatim>\<open>setup\<close> completes, and then the ready promise is
  fulfilled; once the promise is settled neither it nor readiness changes again; and when
  the pending load of a reachable style is rejected, the style stays unready whatever
  happens next and the ready promise reports the rejection.
\<close>

theorem readiness_settles_once:
  "(u_ready (tileStyle w1) \<longrightarrow> u_ready (tileStyle (run E ops1 w1)))
   \<and> (\<not> u_ready (tileStyle w2) \<and> u_ready (tileStyle (snd (step E x w2))) \<longrightarrow>
        (\<exists>styleJson. x = LoadResolves styleJson \<and> u_readyPromise (tileStyle w2) = Pending
           \<and> fst (setupStyle E (store w2) (tileStyle w2) styleJson) = Inr ()
           \<and> u_readyPromise (tileStyle (snd (step E x w2))) = Fulfilled))
   \<and> (u_readyPromise (tileStyle w3) \<noteq> Pending \<longrightarrow>
        u_readyPromise (tileStyle (run E ops3 w3)) = u_readyPromise (tileStyle w3)
        \<and> u_ready (tileStyle (run E ops3 w3)) = u_ready (tileStyle w3))
   \<and> (reachable E w4 \<and> u_readyPromise (tileStyle w4) = Pending \<longrightarrow>
        \<not> u_ready (tileStyle (run E ops4 (snd (step E (LoadRejects err) w4))))
        \<and> get_readyPromise (tileStyle (run E ops4 (snd (step E (LoadRejects err) w4)))) = Rejected err)"
proof (intro conjI impI)
  assume "u_ready (tileStyle w1)"
  then show "u_ready (tileStyle (run E ops1 w1))" by (rule run_ready_mono)
next
  assume a: "\<not> u_ready (tileStyle w2) \<and> u_ready (tileStyle (snd (step E x w2)))"
  then obtain j where j: "x = LoadResolves j" "u_readyPromise (tileStyle w2) = Pending"
    "fst (setupStyle E (store w2) (tileStyle w2) j) = Inr ()"
    by (auto simp: step_ready)
  then have "u_readyPromise (tileStyle (snd (step E x w2))) = Fulfilled"
    by (simp add: loadResolved_ready)
  with j show "\<exists>styleJson. x = LoadResolves styleJson \<and> u_readyPromise (tileStyle w2) = Pending
           \<and> fst (setupStyle E (store w2) (tileStyle w2) styleJson) = Inr ()
           \<and> u_readyPromise (tileStyle (snd (step E x w2))) = Fulfilled" by blast
next
  assume "u_readyPromise (tileStyle w3) \<noteq> Pending"
  from run_settled[OF this]
  show "u_readyPromise (tileStyle (run E ops3 w3)) = u_readyPromise (tileStyle w3)"
    and "u_ready (tileStyle (run E ops3 w3)) = u_ready (tileStyle w3)" by simp_all
next
  assume a: "reachable E w4 \<and> u_readyPromise (tileStyle w4) = Pending"
  let ?w = "snd (step E (LoadRejects err) w4)"
  from a have nr: "\<not> u_ready (tileStyle w4)" using reachable_ready_iff[of E w4] by auto
  from a have p: "u_readyPromise (tileStyle ?w) = Rejected err" by (simp add: loadRejected_def)
  from a nr have r: "\<not> u_ready (tileStyle ?w)" by (simp add: loadRejected_def)
  have np: "u_readyPromise (tileStyle ?w) \<noteq> Pending" using p by simp
  from run_settled[OF np, of E ops4] p r
  show "\<not> u_ready (tileStyle (run E ops4 ?w))"
    and "get_readyPromise (tileStyle (run E ops4 ?w)) = Rejected err"
    by (simp_all add: get_readyPromise_def)
qed

theorem readiness_settles_once_witness:
  "u_ready (tileStyle inlineWorld)
   \<and> u_ready (tileStyle (run sampleEnv
         [Set Color (Str ''x''), Call ColorShaderFunction ''f'' ''a'', Get Show] inlineWorld))
   \<and> \<not> u_ready (tileStyle urlWorld)
   \<and> u_ready (tileStyle (snd (step sampleEnv (LoadResolves (Ref 0)) urlWorld)))
   \<and> u_readyPromise (tileStyle (snd (step sampleEnv (LoadResolves (Ref 0)) urlWorld))) = Fulfilled
   \<and> u_readyPromise (tileStyle inlineWorld) \<noteq> Pending
   \<and> u_readyPromise (tileStyle (run sampleEnv
         [LoadRejects (RequestError ''late''), LoadResolves (Ref 0)] inlineWorld)) = Fulfilled
   \<and> reachable sampleEnv urlWorld
   \<and> u_readyPromise (tileStyle urlWorld) = Pending
   \<and> \<not> u_ready (tileStyle (run sampleEnv [LoadResolves (Ref 0), Set Show (Bool True)]
         (snd (step sampleEnv (LoadRejects (RequestError ''404'')) urlWorld))))
   \<and> get_readyPromise (tileStyle (run sampleEnv [LoadResolves (Ref 0), Set Show (Bool True)]
         (snd (step sampleEnv (LoadRejects (RequestError ''404'')) urlWorld))))
       = Rejected (RequestError ''404'')"
proof -
  have h1: "u_ready (tileStyle inlineWorld)" by code_simp
  have h2: "\<not> u_ready (tileStyle urlWorld)" by code_simp
  have h2': "u_ready (tileStyle (snd (step sampleEnv (LoadResolves (Ref 0)) urlWorld)))"
    by code_simp
  have h3: "u_readyPromise (tileStyle inlineWorld) \<noteq> Pending" by code_simp
  have h3': "u_readyPromise (tileStyle inlineWorld) = Fulfilled" by code_simp
  have h4: "reachable sampleEnv urlWorld" unfolding urlWorld_def by (rule reachable.constructed)
  have h4': "u_readyPromise (tileStyle urlWorld) = Pending" by code_simp
  from readiness_settles_once[of inlineWorld sampleEnv
      "[Set Color (Str ''x''), Call ColorShaderFunction ''f'' ''a'', Get Show]"
      urlWorld "LoadResolves (Ref 0)" inlineWorld
      "[LoadRejects (RequestError ''late''), LoadResolves (Ref 0)]"
      urlWorld "[LoadResolves (Ref 0), Set Show (Bool True)]" "RequestError ''404''"]
    h1 h2 h2' h3 h3' h4 h4'
  show ?thesis by auto
qed

text \<open>
  Claim C1, as amended. While \<^verbatim>\<open>ready\<close> is false the getter of every stylable property
  fails with the not-ready \<^verbatim>\<open>DeveloperError\<close>. The setters make no readiness check: on an
  unready object a setter does exactly what it does on the same object when ready (it
  stores the coerced value, or throws what the expression constructor throws).
\<close>

theorem getters_guarded_setters_not:
  assumes "\<not> u_ready this"
  shows "get_property this p = Inl notLoaded
     \<and> set_property E h p v this =
         (case set_property E h p v (this\<lparr>u_ready := True\<rparr>) of
            Inl err \<Rightarrow> Inl err
          | Inr this1 \<Rightarrow> Inr (this1\<lparr>u_ready := False\<rparr>))"
proof -
  have g: "getExpression E h (this\<lparr>u_ready := True\<rparr>) v = getExpression E h this v"
    by (simp add: getExpression_def)
  have i: "\<And>s. (invalidate p s)\<lparr>u_ready := False\<rparr> = invalidate p (s\<lparr>u_ready := False\<rparr>)"
    by (cases p) simp_all
  from assms show ?thesis
    by (auto simp: get_property_def set_property_def g i split: sum.splits)
qed

theorem getters_guarded_setters_not_witness:
  "\<not> u_ready (tileStyle urlWorld)
   \<and> get_property (tileStyle urlWorld) Show = Inl notLoaded
   \<and> set_property sampleEnv sampleStore Show (Bool True) (tileStyle urlWorld) =
         (case set_property sampleEnv sampleStore Show (Bool True)
                 ((tileStyle urlWorld)\<lparr>u_ready := True\<rparr>) of
            Inl err \<Rightarrow> Inl err
          | Inr this1 \<Rightarrow> Inr (this1\<lparr>u_ready := False\<rparr>))"
proof -
  have h: "\<not> u_ready (tileStyle urlWorld)" by code_simp
  from h getters_guarded_setters_not[OF h, of Show sampleEnv sampleStore "Bool True"]
  show ?thesis by blast
qed

text \<open>
  Claim C1 as stated fails: on the style constructed from a url, whose load is still
  pending, assigning \<^verbatim>\<open>show\<close> succeeds and stores the expression.
\<close>

theorem setter_succeeds_before_ready:
  "\<not> u_ready (tileStyle urlWorld)
   \<and> fst (step sampleEnv (Set Show (Bool True)) urlWorld) = Done
   \<and> u_prop (tileStyle (snd (step sampleEnv (Set Show (Bool True)) urlWorld))) Show
       = ExpressionObj ''true''"
  by code_simp

section \<open>The setters\<close>

text \<open>
  Claim C3, as amended. For every stylable property other than \<^verbatim>\<open>meta\<close> and every value
  other than \<^verbatim>\<open>null\<close>, the setter stores what the coercion of the specification yields and
  clears the property's cache, or throws what the constructor throws and stores nothing.
  The \<open>defines\<close> are those of the raw style the object holds. Assigning \<^verbatim>\<open>null\<close> stores
  \<^verbatim>\<open>undefined\<close>.
\<close>

theorem setters_coerce_except_meta:
  assumes "p \<noteq> Meta"
  shows "(v \<noteq> Null \<longrightarrow>
      set_property E h p v this =
        (case coerceSpec E h (member h (u_style this) ''defines'') v of
           Inl err \<Rightarrow> Inl err
         | Inr x \<Rightarrow> Inr (invalidate p (this\<lparr>u_prop := (u_prop this)(p := x)\<rparr>))))
     \<and> set_property E h p Null this
           = Inr (invalidate p (this\<lparr>u_prop := (u_prop this)(p := Undefined)\<rparr>))"
  using assms by (simp add: set_property_def getExpression_coerceSpec) (simp add: getExpression_def)

theorem setters_coerce_except_meta_witness:
  "Color \<noteq> Meta \<and> (Ref 1 :: (int, string) val) \<noteq> Null
   \<and> coerceSpec sampleEnv (store inlineWorld)
         (member (store inlineWorld) (u_style (tileStyle inlineWorld)) ''defines'') (Ref 1)
       = Inr (ConditionsExpressionObj ''conditions'')
   \<and> set_property sampleEnv (store inlineWorld) Color (Ref 1) (tileStyle inlineWorld)
       = Inr (invalidate Color ((tileStyle inlineWorld)
              \<lparr>u_prop := (u_prop (tileStyle inlineWorld))
                          (Color := ConditionsExpressionObj ''conditions'')\<rparr>))"
proof -
  have h1: "Color \<noteq> Meta" by simp
  have h2: "(Ref 1 :: (int, string) val) \<noteq> Null" by simp
  have c: "coerceSpec sampleEnv (store inlineWorld)
         (member (store inlineWorld) (u_style (tileStyle inlineWorld)) ''defines'') (Ref 1)
       = Inr (ConditionsExpressionObj ''conditions'')" by code_simp
  from setters_coerce_except_meta[OF h1, of "Ref 1" sampleEnv "store inlineWorld"
      "tileStyle inlineWorld"] c h1 h2
  show ?thesis by simp
qed

text \<open>
  Claim C3 as stated fails at \<^verbatim>\<open>meta\<close>: its setter stores the boolean itself, where the
  setter of \<^verbatim>\<open>show\<close> stores the expression built from it.
\<close>

theorem meta_setter_does_not_coerce:
  "u_prop (tileStyle (snd (step sampleEnv (Set Meta (Bool True)) inlineWorld))) Meta = Bool True
   \<and> u_prop (tileStyle (snd (step sampleEnv (Set Show (Bool True)) inlineWorld))) Show
       = ExpressionObj ''true''"
  by code_simp
text \<open>
  Claim C10. The setter of \<^verbatim>\<open>meta\<close> stores the assigned value as it is, whatever its kind,
  without calling a constructor and without touching any other field, the six cache fields
  included. Only \<^verbatim>\<open>setup\<close> wraps. When it completes on a document whose \<^verbatim>\<open>meta\<close> the store
  describes, \<^verbatim>\<open>_meta\<close> is a new object built from the entries of the document's \<^verbatim>\<open>meta\<close>,
  its own enumerable properties:
  \<^item> an entry named \<^verbatim>\<open>hasOwnProperty\<close> is a function, for any other value makes the guard
    of the loop throw;
  \<^item> every property of \<^verbatim>\<open>_meta\<close> has the name of an entry and holds the \<^verbatim>\<open>Expression\<close> built
    from such an entry with the document's \<^verbatim>\<open>defines\<close>, and none is named \<^verbatim>\<open>__proto__\<close>;
  \<^item> the prototype of \<^verbatim>\<open>_meta\<close> is \<^verbatim>\<open>Object.prototype\<close>, or the \<^verbatim>\<open>Expression\<close> built from an
    entry named \<^verbatim>\<open>__proto__\<close>;
  \<^item> when no entry is named \<^verbatim>\<open>hasOwnProperty\<close>, every entry has been wrapped; then, when
    no entry is named \<^verbatim>\<open>__proto__\<close>, \<^verbatim>\<open>_meta\<close> is a plain object with exactly the names of
    the entries, and otherwise its prototype is an \<^verbatim>\<open>Expression\<close>.
\<close>

theorem meta_stored_unchanged:
  "set_property E h Meta v this = Inr (this\<lparr>u_prop := (u_prop this)(Meta := v)\<rparr>)
   \<and> (setupStyle E h that styleJson = (Inr (), h', that')
        \<and> \<not> hostObject (snd (clone (stackDepth E) h styleJson))
              (member (snd (clone (stackDepth E) h styleJson)) styleJson ''meta'')
      \<longrightarrow> (let h1 = snd (clone (stackDepth E) h styleJson);
               defines = member h1 styleJson ''defines'';
               entries = ownEnumerable h1 (member h1 styleJson ''meta'');
               meta = last h'
           in h' = h1 @ [meta]
              \<and> u_prop that' Meta = Ref (length h1)
              \<and> (\<forall>f0. map_of entries ''hasOwnProperty'' = Some f0 \<longrightarrow> (\<exists>f. f0 = Function f))
              \<and> (\<forall>k x. (k, x) \<in> set (props meta) \<longrightarrow>
                     k \<noteq> ''__proto__''
                     \<and> (\<exists>v e. (k, v) \<in> set entries \<and> newExpression E h1 v defines = Inr e
                            \<and> x = ExpressionObj e))
              \<and> (kindOf meta = PlainObject
                  \<or> (\<exists>v e. (''__proto__'', v) \<in> set entries
                         \<and> newExpression E h1 v defines = Inr e \<and> kindOf meta = Inheriting e))
              \<and> (map_of entries ''hasOwnProperty'' = None \<longrightarrow>
                    (\<forall>k v. (k, v) \<in> set entries \<longrightarrow> (\<exists>e. newExpression E h1 v defines = Inr e))
                    \<and> (map_of entries ''__proto__'' = None \<longrightarrow>
                          kindOf meta = PlainObject
                          \<and> fst ` set (props meta) = fst ` set entries)
                    \<and> (map_of entries ''__proto__'' \<noteq> None \<longrightarrow>
                          (\<exists>e. kindOf meta = Inheriting e)))))"
proof (intro conjI impI)
  show "set_property E h Meta v this = Inr (this\<lparr>u_prop := (u_prop this)(Meta := v)\<rparr>)"
    by (simp add: set_property_def)
next
  assume a: "setupStyle E h that styleJson = (Inr (), h', that')
        \<and> \<not> hostObject (snd (clone (stackDepth E) h styleJson))
              (member (snd (clone (stackDepth E) h styleJson)) styleJson ''meta'')"
  obtain c h1 where cl: "clone (stackDepth E) h styleJson = (Inr c, h1)"
    using a by (auto simp: setupStyle_def split: prod.splits sum.splits)
  let ?sj = "defaultValue styleJson EMPTY_OBJECT"
  let ?m = "member h1 styleJson ''meta''"
  let ?d = "member h1 styleJson ''defines''"
  let ?es = "ownEnumerable h1 ?m"
  from a cl have nh: "\<not> hostObject h1 ?m" by simp
  obtain that2 where aa: "assignAll E h1 ?sj setupOrder (that\<lparr>u_style := c\<rparr>) = (Inr (), that2)"
    using a cl by (auto simp: setupStyle_def Let_def split: prod.splits sum.splits)
  let ?w = "if defined ?m
            then wrapMeta E h1 ?d (guardedForIn E h1 (defaultValue ?m EMPTY_OBJECT))
                   (HObj PlainObject [])
            else Inr (HObj PlainObject [])"
  have s: "setupStyle E h that styleJson =
      (case ?w of
         Inl err \<Rightarrow> (Inl err, h1, that2)
       | Inr meta \<Rightarrow>
           (Inr (), h1 @ [meta],
            that2\<lparr>u_prop := (u_prop that2)(Meta := Ref (length h1)), u_ready := True\<rparr>))"
    using cl aa by (simp add: setupStyle_def Let_def)
  obtain metaObj where w: "?w = Inr metaObj"
    and h': "h' = h1 @ [metaObj]"
    and t: "that' = that2\<lparr>u_prop := (u_prop that2)(Meta := Ref (length h1)), u_ready := True\<rparr>"
  proof (cases ?w)
    case (Inl err)
    with s a show ?thesis by simp
  next
    case (Inr metaObj)
    with s a that show ?thesis by simp
  qed
  note r = metaLoop_result[OF w nh]
  from h' have l: "last h' = metaObj" by simp
  from t have p: "u_prop that' Meta = Ref (length h1)" by simp
  from cl have c1: "snd (clone (stackDepth E) h styleJson) = h1" by simp
  have "h' = h1 @ [last h']
     \<and> u_prop that' Meta = Ref (length h1)
     \<and> (\<forall>f0. map_of ?es ''hasOwnProperty'' = Some f0 \<longrightarrow> (\<exists>f. f0 = Function f))
     \<and> (\<forall>k x. (k, x) \<in> set (props (last h')) \<longrightarrow>
            k \<noteq> ''__proto__''
            \<and> (\<exists>v e. (k, v) \<in> set ?es \<and> newExpression E h1 v ?d = Inr e
                   \<and> x = ExpressionObj e))
     \<and> (kindOf (last h') = PlainObject
         \<or> (\<exists>v e. (''__proto__'', v) \<in> set ?es
                \<and> newExpression E h1 v ?d = Inr e \<and> kindOf (last h') = Inheriting e))
     \<and> (map_of ?es ''hasOwnProperty'' = None \<longrightarrow>
           (\<forall>k v. (k, v) \<in> set ?es \<longrightarrow> (\<exists>e. newExpression E h1 v ?d = Inr e))
           \<and> (map_of ?es ''__proto__'' = None \<longrightarrow>
                 kindOf (last h') = PlainObject
                 \<and> fst ` set (props (last h')) = fst ` set ?es)
           \<and> (map_of ?es ''__proto__'' \<noteq> None \<longrightarrow>
                 (\<exists>e. kindOf (last h') = Inheriting e)))"
    unfolding l
  proof (intro conjI)
    show "h' = h1 @ [metaObj]" by (rule h')
    show "u_prop that' Meta = Ref (length h1)" by (rule p)
    show "\<forall>f0. map_of ?es ''hasOwnProperty'' = Some f0 \<longrightarrow> (\<exists>f. f0 = Function f)"
      by (rule r(1))
    show "\<forall>k x. (k, x) \<in> set (props metaObj) \<longrightarrow>
            k \<noteq> ''__proto__''
            \<and> (\<exists>v e. (k, v) \<in> set ?es \<and> newExpression E h1 v ?d = Inr e
                   \<and> x = ExpressionObj e)"
      by (rule r(2))
    show "kindOf metaObj = PlainObject
         \<or> (\<exists>v e. (''__proto__'', v) \<in> set ?es
                \<and> newExpression E h1 v ?d = Inr e \<and> kindOf metaObj = Inheriting e)"
      by (rule r(3))
    show "map_of ?es ''hasOwnProperty'' = None \<longrightarrow>
           (\<forall>k v. (k, v) \<in> set ?es \<longrightarrow> (\<exists>e. newExpression E h1 v ?d = Inr e))
           \<and> (map_of ?es ''__proto__'' = None \<longrightarrow>
                 kindOf metaObj = PlainObject
                 \<and> fst ` set (props metaObj) = fst ` set ?es)
           \<and> (map_of ?es ''__proto__'' \<noteq> None \<longrightarrow>
                 (\<exists>e. kindOf metaObj = Inheriting e))"
      by (rule r(4))
  qed
  then show "let h1 = snd (clone (stackDepth E) h styleJson);
               defines = member h1 styleJson ''defines'';
               entries = ownEnumerable h1 (member h1 styleJson ''meta'');
               meta = last h'
           in h' = h1 @ [meta]
              \<and> u_prop that' Meta = Ref (length h1)
              \<and> (\<forall>f0. map_of entries ''hasOwnProperty'' = Some f0 \<longrightarrow> (\<exists>f. f0 = Function f))
              \<and> (\<forall>k x. (k, x) \<in> set (props meta) \<longrightarrow>
                     k \<noteq> ''__proto__''
                     \<and> (\<exists>v e. (k, v) \<in> set entries \<and> newExpression E h1 v defines = Inr e
                            \<and> x = ExpressionObj e))
              \<and> (kindOf meta = PlainObject
                  \<or> (\<exists>v e. (''__proto__'', v) \<in> set entries
                         \<and> newExpression E h1 v defines = Inr e \<and> kindOf meta = Inheriting e))
              \<and> (map_of entries ''hasOwnProperty'' = None \<longrightarrow>
                    (\<forall>k v. (k, v) \<in> set entries \<longrightarrow> (\<exists>e. newExpression E h1 v defines = Inr e))
                    \<and> (map_of entries ''__proto__'' = None \<longrightarrow>
                          kindOf meta = PlainObject
                          \<and> fst ` set (props meta) = fst ` set entries)
                    \<and> (map_of entries ''__proto__'' \<noteq> None \<longrightarrow>
                          (\<exists>e. kindOf meta = Inheriting e)))"
    unfolding Let_def c1 .
qed

text \<open>
  On the sample document \<^verbatim>\<open>setup\<close> wraps the one entry of \<^verbatim>\<open>meta\<close>. On a document whose
  \<^verbatim>\<open>meta\<close> has the entries \<^verbatim>\<open>title\<close> and \<^verbatim>\<open>__proto__\<close>, \<^verbatim>\<open>_meta\<close> has the one property \<^verbatim>\<open>title\<close>
  and the second \<^verbatim>\<open>Expression\<close> as its prototype. On a document whose \<^verbatim>\<open>meta\<close> has an entry
  \<^verbatim>\<open>hasOwnProperty\<close> that is a string, \<^verbatim>\<open>setup\<close> throws a type error.
\<close>

theorem meta_stored_unchanged_witness:
  "fst (setupStyle sampleEnv sampleStore initialStyle (Ref 0)) = Inr ()
   \<and> \<not> hostObject (snd (clone (stackDepth sampleEnv) sampleStore (Ref 0)))
         (member (snd (clone (stackDepth sampleEnv) sampleStore (Ref 0))) (Ref 0) ''meta'')
   \<and> u_prop (snd (snd (setupStyle sampleEnv sampleStore initialStyle (Ref 0)))) Meta = Ref 10
   \<and> last (fst (snd (setupStyle sampleEnv sampleStore initialStyle (Ref 0))))
       = HObj PlainObject [(''description'', ExpressionObj ''text'')]
   \<and> kindOf (last (fst (snd (setupStyle sampleEnv sampleStore initialStyle (Ref 0)))))
       = PlainObject
   \<and> fst ` set (props (last (fst (snd (setupStyle sampleEnv sampleStore initialStyle (Ref 0))))))
       = fst ` set (ownEnumerable (snd (clone (stackDepth sampleEnv) sampleStore (Ref 0)))
                     (member (snd (clone (stackDepth sampleEnv) sampleStore (Ref 0))) (Ref 0)
                        ''meta''))
   \<and> fst (setupStyle sampleEnv protoKeyStore initialStyle (Ref 0)) = Inr ()
   \<and> \<not> hostObject (snd (clone (stackDepth sampleEnv) protoKeyStore (Ref 0)))
         (member (snd (clone (stackDepth sampleEnv) protoKeyStore (Ref 0))) (Ref 0) ''meta'')
   \<and> last (fst (snd (setupStyle sampleEnv protoKeyStore initialStyle (Ref 0))))
       = HObj (Inheriting ''b'') [(''title'', ExpressionObj ''a'')]
   \<and> (\<exists>e. kindOf (last (fst (snd (setupStyle sampleEnv protoKeyStore initialStyle (Ref 0)))))
            = Inheriting e)
   \<and> ''__proto__'' \<notin> fst ` set (props (last (fst (snd
                  (setupStyle sampleEnv protoKeyStore initialStyle (Ref 0))))))
   \<and> fst (setupStyle sampleEnv guardKeyStore initialStyle (Ref 0))
       = Inl (TypeError ''metaJson.hasOwnProperty is not a function'')"
proof -
  let ?r = "setupStyle sampleEnv sampleStore initialStyle (Ref 0)"
  let ?h1 = "snd (clone (stackDepth sampleEnv) sampleStore (Ref 0))"
  let ?es = "ownEnumerable ?h1 (member ?h1 (Ref 0) ''meta'')"
  have a1: "fst ?r = Inr ()" by code_simp
  then have a1': "?r = (Inr (), fst (snd ?r), snd (snd ?r))"
    by (metis prod.collapse)
  have a2: "\<not> hostObject ?h1 (member ?h1 (Ref 0) ''meta'')" by code_simp
  have a3: "u_prop (snd (snd ?r)) Meta = Ref 10" by code_simp
  have a4: "last (fst (snd ?r)) = HObj PlainObject [(''description'', ExpressionObj ''text'')]"
    by code_simp
  have a5: "map_of ?es ''hasOwnProperty'' = None" by code_simp
  have a6: "map_of ?es ''__proto__'' = None" by code_simp
  from meta_stored_unchanged[of sampleEnv sampleStore _ _ initialStyle "Ref 0"
      "fst (snd ?r)" "snd (snd ?r)"] a1' a2
  have "map_of ?es ''hasOwnProperty'' = None \<longrightarrow>
          (\<forall>k v. (k, v) \<in> set ?es \<longrightarrow>
              (\<exists>e. newExpression sampleEnv ?h1 v (member ?h1 (Ref 0) ''defines'') = Inr e))
          \<and> (map_of ?es ''__proto__'' = None \<longrightarrow>
                kindOf (last (fst (snd ?r))) = PlainObject
                \<and> fst ` set (props (last (fst (snd ?r)))) = fst ` set ?es)
          \<and> (map_of ?es ''__proto__'' \<noteq> None \<longrightarrow>
                (\<exists>e. kindOf (last (fst (snd ?r))) = Inheriting e))"
    unfolding Let_def by blast
  with a5 a6 have a7: "kindOf (last (fst (snd ?r))) = PlainObject
      \<and> fst ` set (props (last (fst (snd ?r)))) = fst ` set ?es" by blast
  let ?q = "setupStyle sampleEnv protoKeyStore initialStyle (Ref 0)"
  let ?g1 = "snd (clone (stackDepth sampleEnv) protoKeyStore (Ref 0))"
  let ?fs = "ownEnumerable ?g1 (member ?g1 (Ref 0) ''meta'')"
  have b1: "fst ?q = Inr ()" by code_simp
  then have b1': "?q = (Inr (), fst (snd ?q), snd (snd ?q))"
    by (metis prod.collapse)
  have b2: "\<not> hostObject ?g1 (member ?g1 (Ref 0) ''meta'')" by code_simp
  have b4: "last (fst (snd ?q)) = HObj (Inheriting ''b'') [(''title'', ExpressionObj ''a'')]"
    by code_simp
  have b5: "map_of ?fs ''hasOwnProperty'' = None" by code_simp
  have b6: "map_of ?fs ''__proto__'' \<noteq> None" by code_simp
  from meta_stored_unchanged[of sampleEnv protoKeyStore _ _ initialStyle "Ref 0"
      "fst (snd ?q)" "snd (snd ?q)"] b1' b2
  have "(\<forall>k x. (k, x) \<in> set (props (last (fst (snd ?q)))) \<longrightarrow>
            k \<noteq> ''__proto__''
            \<and> (\<exists>v e. (k, v) \<in> set ?fs
                   \<and> newExpression sampleEnv ?g1 v (member ?g1 (Ref 0) ''defines'') = Inr e
                   \<and> x = ExpressionObj e))
        \<and> (map_of ?fs ''hasOwnProperty'' = None \<longrightarrow>
          (\<forall>k v. (k, v) \<in> set ?fs \<longrightarrow>
              (\<exists>e. newExpression sampleEnv ?g1 v (member ?g1 (Ref 0) ''defines'') = Inr e))
          \<and> (map_of ?fs ''__proto__'' = None \<longrightarrow>
                kindOf (last (fst (snd ?q))) = PlainObject
                \<and> fst ` set (props (last (fst (snd ?q)))) = fst ` set ?fs)
          \<and> (map_of ?fs ''__proto__'' \<noteq> None \<longrightarrow>
                (\<exists>e. kindOf (last (fst (snd ?q))) = Inheriting e)))"
    unfolding Let_def by blast
  with b5 b6 have b7: "(\<exists>e. kindOf (last (fst (snd ?q))) = Inheriting e)
      \<and> (\<forall>k x. (k, x) \<in> set (props (last (fst (snd ?q)))) \<longrightarrow> k \<noteq> ''__proto__'')"
    by blast
  then have b8: "''__proto__'' \<notin> fst ` set (props (last (fst (snd ?q))))" by force
  have c: "fst (setupStyle sampleEnv guardKeyStore initialStyle (Ref 0))
       = Inl (TypeError ''metaJson.hasOwnProperty is not a function'')" by code_simp
  from a1 a2 a3 a4 a7 b1 b2 b4 b7 b8 c show ?thesis by blast
qed
section \<open>The memoised shader functions\<close>

text \<open>
  Claim C2. An assignment that succeeds clears the cache flag of the assigned property,
  if it has one, and nothing else of the caches: the flags of the other accessors and the
  three cached values stay as they were. An assignment that throws changes nothing. So on
  a ready style a cache that was ready is still returned unchanged by its accessor after
  any operations that do not assign the accessor's own property, whatever the host's
  compiler would do, while the accessor of the assigned property compiles the new value
  at its next call.
\<close>

theorem reassigning_clears_only_own_cache:
  "(step E (Set p v) w = (Done, w1) \<longrightarrow>
      (\<forall>a. cacheReady a (tileStyle w1) = (propertyOf a \<noteq> p \<and> cacheReady a (tileStyle w))
          \<and> cacheValue a (tileStyle w1) = cacheValue a (tileStyle w)))
   \<and> (step E (Set p v) w = (Throws err, w1) \<longrightarrow> w1 = w)
   \<and> (reachable E w \<and> get_ready (tileStyle w) \<and> cacheReady b (tileStyle w)
        \<and> (\<forall>x\<in>set xs. \<forall>u. x \<noteq> Set (propertyOf b) u) \<longrightarrow>
      step E' (Call b fn ap) (run E xs w) = (Returns (cacheValue b (tileStyle w)), run E xs w))
   \<and> (get_ready (tileStyle w) \<and> \<not> cacheReady b (tileStyle w) \<longrightarrow>
      fst (step E (Call b fn ap) w)
        = (if defined (u_prop (tileStyle w) (propertyOf b))
           then outcomeOf (fst (getShaderFunction E (store w)
                                  (u_prop (tileStyle w) (propertyOf b)) fn ap (shaderState w)
                                  (returnTypeOf b)))
           else Returns Undefined))"
proof (intro conjI impI)
  assume a: "step E (Set p v) w = (Done, w1)"
  then obtain s' where sp: "set_property E (store w) p v (tileStyle w) = Inr s'"
    and w1: "tileStyle w1 = s'"
    by (cases "set_property E (store w) p v (tileStyle w)") auto
  show "\<forall>a. cacheReady a (tileStyle w1) = (propertyOf a \<noteq> p \<and> cacheReady a (tileStyle w))
          \<and> cacheValue a (tileStyle w1) = cacheValue a (tileStyle w)"
  proof
    fix a
    from set_property_cache[OF sp, of a] w1
    show "cacheReady a (tileStyle w1) = (propertyOf a \<noteq> p \<and> cacheReady a (tileStyle w))
          \<and> cacheValue a (tileStyle w1) = cacheValue a (tileStyle w)"
      by auto
  qed
next
  assume "step E (Set p v) w = (Throws err, w1)"
  then show "w1 = w"
    by (cases "set_property E (store w) p v (tileStyle w)") auto
next
  assume a: "reachable E w \<and> get_ready (tileStyle w) \<and> cacheReady b (tileStyle w)
        \<and> (\<forall>x\<in>set xs. \<forall>u. x \<noteq> Set (propertyOf b) u)"
  then have "u_ready (tileStyle w)" by (simp add: get_ready_def)
  with a have "u_readyPromise (tileStyle w) = Fulfilled"
    using reachable_ready_iff[of E w] by simp
  then have np: "u_readyPromise (tileStyle w) \<noteq> Pending" by simp
  from a have rdy: "cacheReady b (tileStyle w)"
    and xs: "\<forall>x\<in>set xs. \<forall>u. x \<noteq> Set (propertyOf b) u" by simp_all
  from run_keeps_cache_settled[OF rdy np xs, of E]
  have k: "cacheReady b (tileStyle (run E xs w))"
    "cacheValue b (tileStyle (run E xs w)) = cacheValue b (tileStyle w)" by auto
  from cached_step[OF k(1), of E' fn ap] k(2)
  show "step E' (Call b fn ap) (run E xs w) = (Returns (cacheValue b (tileStyle w)), run E xs w)"
    by simp
next
  assume a: "get_ready (tileStyle w) \<and> \<not> cacheReady b (tileStyle w)"
  then have r: "u_ready (tileStyle w)" and n: "\<not> cacheReady b (tileStyle w)"
    by (simp_all add: get_ready_def)
  have "fst (step E (Call b fn ap) w)
      = outcomeOf (fst (callAccessor b E (store w) fn ap (shaderState w) (tileStyle w)))"
    by (simp split: prod.splits)
  with call_miss[OF r n, of E "store w" fn ap "shaderState w"]
  show "fst (step E (Call b fn ap) w)
        = (if defined (u_prop (tileStyle w) (propertyOf b))
           then outcomeOf (fst (getShaderFunction E (store w)
                                  (u_prop (tileStyle w) (propertyOf b)) fn ap (shaderState w)
                                  (returnTypeOf b)))
           else Returns Undefined)"
    by simp
qed

text \<open>
  On the sample style with its show and color shader functions cached: assigning
  \<^verbatim>\<open>color\<close> clears the color flag, which was set, and leaves the show flag set; an
  assignment of a malformed expression throws and changes nothing; after assignments of
  \<^verbatim>\<open>color\<close> and \<^verbatim>\<open>pointSize\<close>, a late resolution of the load and a call of the color
  accessor, the show accessor still returns the function compiled first; and the color
  accessor compiles the new color.
\<close>

theorem reassigning_clears_only_own_cache_witness:
  "cacheReady ColorShaderFunction (tileStyle bothCachedWorld)
   \<and> cacheReady ShowShaderFunction (tileStyle bothCachedWorld)
   \<and> fst (step sampleEnv (Set Color (Str ''color(red)'')) bothCachedWorld) = Done
   \<and> \<not> cacheReady ColorShaderFunction
         (tileStyle (snd (step sampleEnv (Set Color (Str ''color(red)'')) bothCachedWorld)))
   \<and> cacheReady ShowShaderFunction
         (tileStyle (snd (step sampleEnv (Set Color (Str ''color(red)'')) bothCachedWorld)))
   \<and> fst (step sampleEnv (Set Color (Str ''('')) bothCachedWorld)
       = Throws (RuntimeError ''Unexpected end of expression'')
   \<and> snd (step sampleEnv (Set Color (Str ''('')) bothCachedWorld) = bothCachedWorld
   \<and> reachable sampleEnv bothCachedWorld
   \<and> get_ready (tileStyle bothCachedWorld)
   \<and> step sampleEnv (Call ShowShaderFunction ''other'' ''b_'')
         (run sampleEnv
            [Set Color (Str ''color(red)''), Set PointSize (Num 3), LoadResolves (Ref 0),
             Call ColorShaderFunction ''getColor2'' ''a_'']
            bothCachedWorld)
       = (Returns (Str ''bool getShow''),
          run sampleEnv
            [Set Color (Str ''color(red)''), Set PointSize (Num 3), LoadResolves (Ref 0),
             Call ColorShaderFunction ''getColor2'' ''a_'']
            bothCachedWorld)
   \<and> fst (step sampleEnv (Call ColorShaderFunction ''getColor2'' ''a_'')
           (snd (step sampleEnv (Set Color (Str ''color(red)'')) bothCachedWorld)))
       = Returns (Str ''vec4 getColor2'')"
proof -
  let ?W = "bothCachedWorld"
  let ?x = "Set Color (Str ''color(red)'') :: (int, string) op"
  let ?y = "Set Color (Str ''('') :: (int, string) op"
  let ?xs = "[Set Color (Str ''color(red)''), Set PointSize (Num 3), LoadResolves (Ref 0),
              Call ColorShaderFunction ''getColor2'' ''a_''] :: (int, string) op list"
  let ?w1 = "snd (step sampleEnv ?x ?W)"
  let ?err = "RuntimeError ''Unexpected end of expression''"
  have c0: "cacheReady ColorShaderFunction (tileStyle ?W)" by code_simp
  have s0: "cacheReady ShowShaderFunction (tileStyle ?W)" by code_simp
  have d: "fst (step sampleEnv ?x ?W) = Done" by code_simp
  then have d': "step sampleEnv ?x ?W = (Done, ?w1)" by (metis prod.collapse)
  have t: "fst (step sampleEnv ?y ?W) = Throws ?err" by code_simp
  then have t': "step sampleEnv ?y ?W = (Throws ?err, snd (step sampleEnv ?y ?W))"
    by (metis prod.collapse)
  have re: "reachable sampleEnv ?W"
    unfolding bothCachedWorld_def inlineWorld_def
    by (rule reachable_run) (rule reachable.constructed)
  have rd: "get_ready (tileStyle ?W)" by code_simp
  have v: "cacheValue ShowShaderFunction (tileStyle ?W) = Str ''bool getShow''" by code_simp
  have xs: "\<forall>x\<in>set ?xs. \<forall>u. x \<noteq> Set (propertyOf ShowShaderFunction) u" by simp
  note th1 = reassigning_clears_only_own_cache[of sampleEnv Color "Str ''color(red)''" ?W ?w1
      ?err ShowShaderFunction ?xs sampleEnv "''other''" "''b_''"]
  from th1 d' have fr: "\<forall>a. cacheReady a (tileStyle ?w1)
        = (propertyOf a \<noteq> Color \<and> cacheReady a (tileStyle ?W))
      \<and> cacheValue a (tileStyle ?w1) = cacheValue a (tileStyle ?W)"
    by blast
  from fr have "cacheReady ColorShaderFunction (tileStyle ?w1)
      = (propertyOf ColorShaderFunction \<noteq> Color \<and> cacheReady ColorShaderFunction (tileStyle ?W))"
    by blast
  then have c1: "\<not> cacheReady ColorShaderFunction (tileStyle ?w1)" by simp
  from fr have "cacheReady ShowShaderFunction (tileStyle ?w1)
      = (propertyOf ShowShaderFunction \<noteq> Color \<and> cacheReady ShowShaderFunction (tileStyle ?W))"
    by blast
  with s0 have s1: "cacheReady ShowShaderFunction (tileStyle ?w1)" by simp
  from th1 re rd s0 xs
  have "step sampleEnv (Call ShowShaderFunction ''other'' ''b_'') (run sampleEnv ?xs ?W)
      = (Returns (cacheValue ShowShaderFunction (tileStyle ?W)), run sampleEnv ?xs ?W)"
    by blast
  with v have k: "step sampleEnv (Call ShowShaderFunction ''other'' ''b_'') (run sampleEnv ?xs ?W)
      = (Returns (Str ''bool getShow''), run sampleEnv ?xs ?W)"
    by (simp only:)
  from reassigning_clears_only_own_cache[of sampleEnv Color "Str ''(''" ?W
      "snd (step sampleEnv ?y ?W)" ?err ShowShaderFunction ?xs sampleEnv "''other''" "''b_''"] t'
  have u: "snd (step sampleEnv ?y ?W) = ?W" by blast
  have rd1: "get_ready (tileStyle ?w1)" by code_simp
  have rhs: "(if defined (u_prop (tileStyle ?w1) (propertyOf ColorShaderFunction))
           then outcomeOf (fst (getShaderFunction sampleEnv (store ?w1)
                                  (u_prop (tileStyle ?w1) (propertyOf ColorShaderFunction))
                                  ''getColor2'' ''a_'' (shaderState ?w1)
                                  (returnTypeOf ColorShaderFunction)))
           else Returns Undefined) = Returns (Str ''vec4 getColor2'')"
    by code_simp
  from reassigning_clears_only_own_cache[of sampleEnv Color "Str ''color(red)''" ?w1 ?w1
      ?err ColorShaderFunction ?xs sampleEnv "''getColor2''" "''a_''"] rd1 c1
  have "fst (step sampleEnv (Call ColorShaderFunction ''getColor2'' ''a_'') ?w1)
      = (if defined (u_prop (tileStyle ?w1) (propertyOf ColorShaderFunction))
           then outcomeOf (fst (getShaderFunction sampleEnv (store ?w1)
                                  (u_prop (tileStyle ?w1) (propertyOf ColorShaderFunction))
                                  ''getColor2'' ''a_'' (shaderState ?w1)
                                  (returnTypeOf ColorShaderFunction)))
           else Returns Undefined)"
    by blast
  with rhs have m: "fst (step sampleEnv (Call ColorShaderFunction ''getColor2'' ''a_'') ?w1)
      = Returns (Str ''vec4 getColor2'')"
    by (simp only:)
  from c0 s0 d c1 s1 t u re rd k m show ?thesis by blast
qed

text \<open>
  Claim C4. On a ready style, after a first call of a shader-function accessor, a later
  call returns the cached value and leaves the style, the store and the shader state as
  they are, as long as the accessor's property has not been assigned in between; any
  other operations may have happened. The later call gives this result under any host
  \<open>E'\<close>, so it does not invoke the expression's \<^verbatim>\<open>getShaderFunction\<close>. The cached value is
  the result of the first call when that call returned.
\<close>

theorem shader_function_compiled_once:
  assumes "reachable E w" and "u_ready (tileStyle w)"
    and "step E (Call acc fn ap) w = (out, w1)"
    and "\<forall>x\<in>set xs. \<forall>v. x \<noteq> Set (propertyOf acc) v"
  shows "step E' (Call acc fn' ap') (run E xs w1)
           = (Returns (cacheValue acc (tileStyle w1)), run E xs w1)
     \<and> (\<forall>r. out = Returns r \<longrightarrow> cacheValue acc (tileStyle w1) = r)"
proof -
  obtain r s' ss' where c:
    "callAccessor acc E (store w) fn ap (shaderState w) (tileStyle w) = (r, s', ss')"
    by (cases "callAccessor acc E (store w) fn ap (shaderState w) (tileStyle w)") auto
  with assms(3) have w1: "tileStyle w1 = s'" and out: "out = outcomeOf r" by auto
  from call_marks_ready(1)[OF c] w1 have rdy: "cacheReady acc (tileStyle w1)" by simp
  from assms(1,2) have "u_readyPromise (tileStyle w) = Fulfilled"
    using reachable_ready_iff by blast
  with accessor_frame(3)[OF c] w1 have np: "u_readyPromise (tileStyle w1) \<noteq> Pending" by simp
  from run_keeps_cache_settled[OF rdy np assms(4), of E]
  have k: "cacheReady acc (tileStyle (run E xs w1))"
    "cacheValue acc (tileStyle (run E xs w1)) = cacheValue acc (tileStyle w1)" by auto
  from cached_step[OF k(1), of E' fn' ap'] k(2)
  have first: "step E' (Call acc fn' ap') (run E xs w1)
           = (Returns (cacheValue acc (tileStyle w1)), run E xs w1)" by simp
  have second: "\<forall>r. out = Returns r \<longrightarrow> cacheValue acc (tileStyle w1) = r"
    using call_marks_ready(2)[OF c] w1 out by (cases r) auto
  from first second show ?thesis by simp
qed

theorem shader_function_compiled_once_witness:
  "reachable sampleEnv inlineWorld \<and> u_ready (tileStyle inlineWorld)
   \<and> fst (step sampleEnv (Call ColorShaderFunction ''getColor'' ''a_'') inlineWorld)
       = Returns (Str ''vec4 getColor'')
   \<and> step sampleEnv (Call ColorShaderFunction ''again'' ''b_'')
         (run sampleEnv
            [Set Show (Bool False), Call ShowShaderFunction ''getShow'' ''a_'', Get Color,
             LoadResolves (Ref 0), Mutate 0 (HObj PlainObject [])]
            (snd (step sampleEnv (Call ColorShaderFunction ''getColor'' ''a_'') inlineWorld)))
       = (Returns (Str ''vec4 getColor''),
          run sampleEnv
            [Set Show (Bool False), Call ShowShaderFunction ''getShow'' ''a_'', Get Color,
             LoadResolves (Ref 0), Mutate 0 (HObj PlainObject [])]
            (snd (step sampleEnv (Call ColorShaderFunction ''getColor'' ''a_'') inlineWorld)))"
proof -
  let ?x = "Call ColorShaderFunction ''getColor'' ''a_'' :: (int, string) op"
  let ?xs = "[Set Show (Bool False), Call ShowShaderFunction ''getShow'' ''a_'', Get Color,
             LoadResolves (Ref 0), Mutate 0 (HObj PlainObject [])] :: (int, string) op list"
  have h1: "reachable sampleEnv inlineWorld"
    unfolding inlineWorld_def by (rule reachable.constructed)
  have h2: "u_ready (tileStyle inlineWorld)" by code_simp
  have h3: "step sampleEnv ?x inlineWorld
      = (fst (step sampleEnv ?x inlineWorld), snd (step sampleEnv ?x inlineWorld))" by simp
  have h4: "\<forall>x\<in>set ?xs. \<forall>v. x \<noteq> Set (propertyOf ColorShaderFunction) v" by simp
  have r: "fst (step sampleEnv ?x inlineWorld) = Returns (Str ''vec4 getColor'')" by code_simp
  from shader_function_compiled_once[OF h1 h2 h3 h4, of sampleEnv "''again''" "''b_''"] h1 h2 r
  show ?thesis by auto
qed

text \<open>
  Claim C8, as amended. On a reachable style that is not ready and whose cache for an
  accessor is not yet marked, a call of the accessor throws the not-ready error, and it
  does so with the cache already marked ready and holding \<^verbatim>\<open>undefined\<close>, so the style
  object is not left as it was. Every later call returns \<^verbatim>\<open>undefined\<close> without throwing
  and without compiling (under any host \<open>E'\<close>, changing nothing), until the property is
  reassigned, by the caller or by \<^verbatim>\<open>setup\<close>. The resolution of the load that makes a style
  ready runs \<^verbatim>\<open>setup\<close>, which assigns every property through its setter and so clears the
  mark: the mark does not outlive the load.
\<close>

theorem unready_call_marks_cache:
  assumes "reachable E w" and "\<not> u_ready (tileStyle w)" and "\<not> cacheReady acc (tileStyle w)"
    and "\<forall>x\<in>set xs. \<not> reassigns (propertyOf acc) x"
    and "step E (Call acc fn ap) w = (out, w1)"
  shows "out = Throws notLoaded
     \<and> cacheReady acc (tileStyle w1) \<and> cacheValue acc (tileStyle w1) = Undefined
     \<and> tileStyle w1 \<noteq> tileStyle w
     \<and> step E' (Call acc fn' ap') (run E xs w1) = (Returns Undefined, run E xs w1)
     \<and> (u_ready (tileStyle (snd (step E (LoadResolves styleJson) (run E xs w1)))) \<longrightarrow>
          \<not> cacheReady acc (tileStyle (snd (step E (LoadResolves styleJson) (run E xs w1)))))"
proof -
  obtain r s' ss' where c:
    "callAccessor acc E (store w) fn ap (shaderState w) (tileStyle w) = (r, s', ss')"
    by (cases "callAccessor acc E (store w) fn ap (shaderState w) (tileStyle w)") auto
  with assms(5) have w1: "tileStyle w1 = s'" and out: "out = outcomeOf r" by auto
  note u = call_unready[OF assms(2,3) c]
  from reachable_cache_undefined[OF assms(1), of acc] assms(2)
  have "cacheValue acc (tileStyle w) = Undefined" by simp
  with u(4) w1 have v: "cacheValue acc (tileStyle w1) = Undefined" by simp
  from u(3) w1 have rdy: "cacheReady acc (tileStyle w1)" by simp
  from run_keeps_cache[OF rdy assms(4), of E] v
  have k: "cacheReady acc (tileStyle (run E xs w1))"
    "cacheValue acc (tileStyle (run E xs w1)) = Undefined" by auto
  from cached_step[OF k(1), of E' fn' ap'] k(2)
  have later: "step E' (Call acc fn' ap') (run E xs w1) = (Returns Undefined, run E xs w1)"
    by simp
  have nr1: "\<not> u_ready (tileStyle w1)" using accessor_frame(1)[OF c] w1 assms(2) by simp
  have nores: "\<forall>x\<in>set xs. \<forall>j. x \<noteq> LoadResolves j" using assms(4) by auto
  have nr2: "\<not> u_ready (tileStyle (run E xs w1))"
    by (rule run_stays_unready[OF nr1 nores])
  have cleared: "u_ready (tileStyle (snd (step E (LoadResolves styleJson) (run E xs w1)))) \<longrightarrow>
          \<not> cacheReady acc (tileStyle (snd (step E (LoadResolves styleJson) (run E xs w1))))"
  proof (cases "u_readyPromise (tileStyle (run E xs w1)) = Pending")
    case True
    with load_resolution_clears_caches[OF _ nr2, of E styleJson acc] show ?thesis by simp
  next
    case False
    with nr2 show ?thesis by simp
  qed
  from u(1) out have "out = Throws notLoaded" by simp
  moreover from u(5) w1 have "tileStyle w1 \<noteq> tileStyle w" by simp
  ultimately show ?thesis using rdy v later cleared by simp
qed

theorem unready_call_marks_cache_witness:
  "reachable sampleEnv urlWorld \<and> \<not> u_ready (tileStyle urlWorld)
   \<and> \<not> cacheReady ColorShaderFunction (tileStyle urlWorld)
   \<and> fst (step sampleEnv (Call ColorShaderFunction ''getColor'' ''a_'') urlWorld)
       = Throws notLoaded
   \<and> cacheReady ColorShaderFunction
         (tileStyle (snd (step sampleEnv (Call ColorShaderFunction ''getColor'' ''a_'') urlWorld)))
   \<and> step sampleEnv (Call ColorShaderFunction ''again'' ''b_'')
         (run sampleEnv
            [Get Color, Set Show (Bool True), Call ShowShaderFunction ''getShow'' ''a_'']
            (snd (step sampleEnv (Call ColorShaderFunction ''getColor'' ''a_'') urlWorld)))
       = (Returns Undefined,
          run sampleEnv
            [Get Color, Set Show (Bool True), Call ShowShaderFunction ''getShow'' ''a_'']
            (snd (step sampleEnv (Call ColorShaderFunction ''getColor'' ''a_'') urlWorld)))
   \<and> u_ready (tileStyle (snd (step sampleEnv (LoadResolves (Ref 0)) (run sampleEnv
            [Get Color, Set Show (Bool True), Call ShowShaderFunction ''getShow'' ''a_'']
            (snd (step sampleEnv (Call ColorShaderFunction ''getColor'' ''a_'') urlWorld))))))
   \<and> \<not> cacheReady ColorShaderFunction
         (tileStyle (snd (step sampleEnv (LoadResolves (Ref 0)) (run sampleEnv
            [Get Color, Set Show (Bool True), Call ShowShaderFunction ''getShow'' ''a_'']
            (snd (step sampleEnv (Call ColorShaderFunction ''getColor'' ''a_'') urlWorld))))))"
proof -
  let ?x = "Call ColorShaderFunction ''getColor'' ''a_'' :: (int, string) op"
  let ?xs = "[Get Color, Set Show (Bool True), Call ShowShaderFunction ''getShow'' ''a_'']
             :: (int, string) op list"
  let ?w1 = "snd (step sampleEnv ?x urlWorld)"
  have h1: "reachable sampleEnv urlWorld"
    unfolding urlWorld_def by (rule reachable.constructed)
  have h2: "\<not> u_ready (tileStyle urlWorld)" by code_simp
  have h3: "\<not> cacheReady ColorShaderFunction (tileStyle urlWorld)" by code_simp
  have h4: "\<forall>x\<in>set ?xs. \<not> reassigns (propertyOf ColorShaderFunction) x" by simp
  have h5: "step sampleEnv ?x urlWorld = (fst (step sampleEnv ?x urlWorld), ?w1)" by simp
  have h6: "u_ready (tileStyle (snd (step sampleEnv (LoadResolves (Ref 0)) (run sampleEnv ?xs ?w1))))"
    by code_simp
  from unready_call_marks_cache[OF h1 h2 h3 h4 h5, of sampleEnv "''again''" "''b_''" "Ref 0"]
    h1 h2 h3 h6
  show ?thesis by blast
qed

text \<open>
  Claim C8 as stated fails where it says "even once the style is ready": a call on the
  pending style throws and marks the cache, yet after the load resolves, with no
  assignment by the caller, the next call compiles and returns the shader function.
\<close>

theorem marked_cache_recompiled_after_load:
  "fst (step sampleEnv (Call ColorShaderFunction ''getColor'' ''a_'') urlWorld) = Throws notLoaded
   \<and> u_ready (tileStyle (run sampleEnv
          [Call ColorShaderFunction ''getColor'' ''a_'', LoadResolves (Ref 0)] urlWorld))
   \<and> fst (step sampleEnv (Call ColorShaderFunction ''again'' ''b_'')
          (run sampleEnv [Call ColorShaderFunction ''getColor'' ''a_'', LoadResolves (Ref 0)] urlWorld))
       = Returns (Str ''vec4 again'')
   \<and> shaderState (snd (step sampleEnv (Call ColorShaderFunction ''again'' ''b_'')
          (run sampleEnv [Call ColorShaderFunction ''getColor'' ''a_'', LoadResolves (Ref 0)] urlWorld)))
       = [''again'']"
  by code_simp

text \<open>
  Claim C9. On a reachable ready style whose property for an accessor is unset
  (\<^verbatim>\<open>undefined\<close>), a call of the accessor returns \<^verbatim>\<open>undefined\<close>, does not throw and does
  not touch the shader state; the cache is then marked ready with \<^verbatim>\<open>undefined\<close>, and
  later calls return \<^verbatim>\<open>undefined\<close> again, changing nothing under any host, until the
  property is assigned.
\<close>

theorem unset_property_compiles_to_undefined:
  assumes "reachable E w" and "u_ready (tileStyle w)"
    and "\<not> defined (u_prop (tileStyle w) (propertyOf acc))"
    and "\<forall>x\<in>set xs. \<forall>v. x \<noteq> Set (propertyOf acc) v"
    and "step E (Call acc fn ap) w = (out, w1)"
  shows "out = Returns Undefined \<and> shaderState w1 = shaderState w
     \<and> cacheReady acc (tileStyle w1) \<and> cacheValue acc (tileStyle w1) = Undefined
     \<and> step E' (Call acc fn' ap') (run E xs w1) = (Returns Undefined, run E xs w1)"
proof -
  obtain r s' ss' where c:
    "callAccessor acc E (store w) fn ap (shaderState w) (tileStyle w) = (r, s', ss')"
    by (cases "callAccessor acc E (store w) fn ap (shaderState w) (tileStyle w)") auto
  with assms(5) have w1: "tileStyle w1 = s'" "shaderState w1 = ss'" and out: "out = outcomeOf r"
    by auto
  have first: "r = Inr Undefined \<and> ss' = shaderState w \<and> cacheReady acc s'
                 \<and> cacheValue acc s' = Undefined"
  proof (cases "cacheReady acc (tileStyle w)")
    case True
    from reachable_cache_undefined[OF assms(1), of acc] True assms(3)
    have "cacheValue acc (tileStyle w) = Undefined" by simp
    with c True show ?thesis by (simp add: cached_call)
  next
    case False
    from call_unset[OF assms(2) False assms(3) c] show ?thesis by simp
  qed
  from assms(1,2) have "u_readyPromise (tileStyle w) = Fulfilled"
    using reachable_ready_iff by blast
  with accessor_frame(3)[OF c] w1 have np: "u_readyPromise (tileStyle w1) \<noteq> Pending" by simp
  from first w1 have rdy: "cacheReady acc (tileStyle w1)" by simp
  from run_keeps_cache_settled[OF rdy np assms(4), of E] first w1
  have k: "cacheReady acc (tileStyle (run E xs w1))"
    "cacheValue acc (tileStyle (run E xs w1)) = Undefined" by auto
  from cached_step[OF k(1), of E' fn' ap'] k(2)
  have later: "step E' (Call acc fn' ap') (run E xs w1) = (Returns Undefined, run E xs w1)"
    by simp
  from first out w1 later show ?thesis by simp
qed

theorem unset_property_compiles_to_undefined_witness:
  "reachable sampleEnv emptyWorld \<and> u_ready (tileStyle emptyWorld)
   \<and> \<not> defined (u_prop (tileStyle emptyWorld) (propertyOf PointSizeShaderFunction))
   \<and> fst (step sampleEnv (Call PointSizeShaderFunction ''getPointSize'' ''a_'') emptyWorld)
       = Returns Undefined
   \<and> step sampleEnv (Call PointSizeShaderFunction ''again'' ''b_'')
         (run sampleEnv [Set Color (Str ''color(red)''), Call ColorShaderFunction ''c'' ''a_'']
            (snd (step sampleEnv (Call PointSizeShaderFunction ''getPointSize'' ''a_'') emptyWorld)))
       = (Returns Undefined,
          run sampleEnv [Set Color (Str ''color(red)''), Call ColorShaderFunction ''c'' ''a_'']
            (snd (step sampleEnv (Call PointSizeShaderFunction ''getPointSize'' ''a_'') emptyWorld)))"
proof -
  let ?x = "Call PointSizeShaderFunction ''getPointSize'' ''a_'' :: (int, string) op"
  let ?xs = "[Set Color (Str ''color(red)''), Call ColorShaderFunction ''c'' ''a_'']
             :: (int, string) op list"
  have h1: "reachable sampleEnv emptyWorld"
    unfolding emptyWorld_def by (rule reachable.constructed)
  have h2: "u_ready (tileStyle emptyWorld)" by code_simp
  have h3: "\<not> defined (u_prop (tileStyle emptyWorld) (propertyOf PointSizeShaderFunction))"
    by code_simp
  have h4: "\<forall>x\<in>set ?xs. \<forall>v. x \<noteq> Set (propertyOf PointSizeShaderFunction) v" by simp
  have h5: "step sampleEnv ?x emptyWorld
      = (fst (step sampleEnv ?x emptyWorld), snd (step sampleEnv ?x emptyWorld))" by simp
  from unset_property_compiles_to_undefined[OF h1 h2 h3 h4 h5, of sampleEnv "''again''" "''b_''"]
    h1 h2 h3
  show ?thesis by auto
qed

section \<open>The raw style\<close>

text \<open>
  Claim C6. Let the load of an unready style resolve with a document that is a finite tree
  within the host's stack depth, and let the style be ready afterwards (the constructor
  given an inline document is this resolution on the initial fields). Then, after any
  further operations, among them any mutation of any object that existed before the
  document was loaded (the caller's original document included) and any allocation, the
  getter of \<^verbatim>\<open>style\<close> returns the same raw style, and that raw style is structurally equal
  to the document as it was when loaded.
\<close>

theorem raw_style_is_deep_clone:
  assumes "reify (stackDepth E) (store w) styleJson = Some t"
    and "\<not> u_ready (tileStyle w)"
    and "u_ready (tileStyle (loadResolved E styleJson w))"
    and "\<forall>x\<in>set xs. \<forall>a obj. x = Mutate a obj \<longrightarrow> a < length (store w)"
  shows "get_style (tileStyle (run E xs (loadResolved E styleJson w)))
           = Inr (u_style (tileStyle (loadResolved E styleJson w)))
     \<and> reify (stackDepth E) (store (run E xs (loadResolved E styleJson w)))
           (u_style (tileStyle (loadResolved E styleJson w))) = Some t"
proof -
  let ?w1 = "loadResolved E styleJson w"
  obtain r h' s' where s: "setupStyle E (store w) (tileStyle w) styleJson = (r, h', s')"
    by (cases "setupStyle E (store w) (tileStyle w) styleJson") auto
  with assms(2,3) have r: "r = Inr ()" by (auto simp: loadResolved_ready)
  from setupStyle_clone[OF s[unfolded r]] obtain c h1 meta where
    cl: "clone (stackDepth E) (store w) styleJson = (Inr c, h1)" and c: "u_style s' = c"
    and h': "h' = h1 @ [meta]" by blast
  from clone_correct[OF assms(1)] cl obtain ys where h1: "h1 = store w @ ys"
    and stab: "\<And>H. agreesFrom (length (store w)) (store w @ ys) H
               \<Longrightarrow> reify (stackDepth E) H c = Some t" by auto
  from s r c h' have w1: "u_style (tileStyle ?w1) = c" "store ?w1 = h1 @ [meta]"
    by (simp_all add: loadResolved_def)
  have p: "u_readyPromise (tileStyle ?w1) \<noteq> Pending"
    using s r by (simp add: loadResolved_ready)
  have a: "agreesFrom (length (store w)) (store w @ ys) (store ?w1)"
    using w1(2) h1 by (auto simp: agreesFrom_def nth_append)
  from run_keeps_raw_style[OF p a assms(4), of E]
  have k: "u_style (tileStyle (run E xs ?w1)) = c"
    "agreesFrom (length (store w)) (store w @ ys) (store (run E xs ?w1))"
    using w1(1) by auto
  from run_ready_mono[OF assms(3), of E xs] k(1) w1(1)
  have g: "get_style (tileStyle (run E xs ?w1)) = Inr (u_style (tileStyle ?w1))"
    by (simp add: get_style_def)
  from stab[OF k(2)] w1(1) g show ?thesis by simp
qed

theorem raw_style_is_deep_clone_witness:
  "reify (stackDepth sampleEnv) (store urlWorld) (Ref 0) = Some sampleTree
   \<and> \<not> u_ready (tileStyle urlWorld)
   \<and> u_ready (tileStyle (loadResolved sampleEnv (Ref 0) urlWorld))
   \<and> u_style (tileStyle (loadResolved sampleEnv (Ref 0) urlWorld)) = Ref 9
   \<and> get_style (tileStyle (run sampleEnv
         [Mutate 0 (HObj PlainObject [(''show'', Str ''changed'')]), Mutate 3 (HObj ArrayObject []),
          Set Color (Str ''color(red)''), Allocate (HObj PlainObject [])]
         (loadResolved sampleEnv (Ref 0) urlWorld)))
       = Inr (Ref 9)
   \<and> reify (stackDepth sampleEnv) (store (run sampleEnv
         [Mutate 0 (HObj PlainObject [(''show'', Str ''changed'')]), Mutate 3 (HObj ArrayObject []),
          Set Color (Str ''color(red)''), Allocate (HObj PlainObject [])]
         (loadResolved sampleEnv (Ref 0) urlWorld))) (Ref 9)
       = Some sampleTree"
proof -
  let ?xs = "[Mutate 0 (HObj PlainObject [(''show'', Str ''changed'')]), Mutate 3 (HObj ArrayObject []),
          Set Color (Str ''color(red)''), Allocate (HObj PlainObject [])] :: (int, string) op list"
  have h1: "reify (stackDepth sampleEnv) (store urlWorld) (Ref 0) = Some sampleTree" by code_simp
  have h2: "\<not> u_ready (tileStyle urlWorld)" by code_simp
  have h3: "u_ready (tileStyle (loadResolved sampleEnv (Ref 0) urlWorld))" by code_simp
  have l: "length (store urlWorld) = 5" by code_simp
  have h4: "\<forall>x\<in>set ?xs. \<forall>a obj. x = Mutate a obj \<longrightarrow> a < length (store urlWorld)"
    unfolding l by simp
  have r: "u_style (tileStyle (loadResolved sampleEnv (Ref 0) urlWorld)) = Ref 9" by code_simp
  note t = raw_style_is_deep_clone[OF h1 h2 h3 h4]
  from t r have a: "get_style (tileStyle (run sampleEnv ?xs (loadResolved sampleEnv (Ref 0) urlWorld)))
       = Inr (Ref 9)" by (simp only:)
  from t r have b: "reify (stackDepth sampleEnv) (store (run sampleEnv ?xs
         (loadResolved sampleEnv (Ref 0) urlWorld))) (Ref 9) = Some sampleTree" by (simp only:)
  from h1 h2 h3 r a b show ?thesis by blast
qed

end
